theory Spec2Isabelle
  imports Main
begin

section \<open>Data model (types.ts)\<close>

text \<open>
  A recipient is a pair of strings, as in the interface \<open>Recipient\<close>: the amount is the
  decimal text read from the CSV file and is only turned into an integer by \<open>BigInt\<close>.
\<close>

record recipient =
  address :: string
  amount :: string

record coin =
  coin_denom :: string
  coin_amount :: string

text \<open>\<open>Input\<close> and \<open>Output\<close> have the same shape: an address and a list of coins.\<close>

record put =
  put_address :: string
  put_coins :: "coin list"

record MultiSendTx =
  inputs :: "put list"
  outputs :: "put list"

subsection \<open>JavaScript numbers, as far as the engine uses them\<close>

text \<open>
  The batch size, the retry bound and the retry delay are what \<open>parseInt\<close> returned: an
  integer or \<open>NaN\<close>. Integers are taken exact (the model does not round above \<open>2^53\<close>).
  Every comparison with \<open>NaN\<close> is false and every sum with \<open>NaN\<close> is \<open>NaN\<close>.
\<close>

datatype number = NaN | Num int

fun num_add :: "number \<Rightarrow> number \<Rightarrow> number" where
  "num_add (Num a) (Num b) = Num (a + b)"
| "num_add _ _ = NaN"

fun num_lt :: "number \<Rightarrow> number \<Rightarrow> bool" where
  "num_lt (Num a) (Num b) = (a < b)"
| "num_lt _ _ = False"

fun num_le :: "number \<Rightarrow> number \<Rightarrow> bool" where
  "num_le (Num a) (Num b) = (a \<le> b)"
| "num_le _ _ = False"

text \<open>\<open>ToIntegerOrInfinity\<close>: \<open>NaN\<close> becomes 0.\<close>

fun toInteger :: "number \<Rightarrow> int" where
  "toInteger NaN = 0"
| "toInteger (Num n) = n"

text \<open>
  \<open>Array.prototype.slice(start, end)\<close>: a negative index counts from the end, both
  indices are clamped to the array, and an empty range gives the empty array.
\<close>

definition slice :: "'a list \<Rightarrow> number \<Rightarrow> number \<Rightarrow> 'a list" where
  "slice xs start end' =
     (let len = int (length xs);
          relativeStart = toInteger start;
          k = (if relativeStart < 0 then max (len + relativeStart) 0 else min relativeStart len);
          relativeEnd = toInteger end';
          final = (if relativeEnd < 0 then max (len + relativeEnd) 0 else min relativeEnd len)
      in take (nat (final - k)) (drop (nat k) xs))"

section \<open>The Batcher (batch-processor.ts, splitIntoBatches)\<close>

text \<open>
  The loop \<open>for (let i = 0; i < recipients.length; i += this.batchSize)\<close> pushes one slice
  per round. Nothing in it bounds the number of rounds when the batch size is not
  positive, so the loop is a partial function: \<open>None\<close> is a loop that has no result. Such
  a loop pushes batches until the runtime stops it; what becomes of the process then is
  said in \<open>main\<close>.
\<close>

partial_function (option) splitLoop ::
  "number \<Rightarrow> recipient list \<Rightarrow> number \<Rightarrow> recipient list list \<Rightarrow> recipient list list option"
where
  "splitLoop batchSize recipients i batches =
     (if num_lt i (Num (int (length recipients)))
      then splitLoop batchSize recipients (num_add i batchSize)
             (batches @ [slice recipients i (num_add i batchSize)])
      else Some batches)"

declare splitLoop.simps [code]

definition splitIntoBatches :: "number \<Rightarrow> recipient list \<Rightarrow> recipient list list option" where
  "splitIntoBatches batchSize recipients = splitLoop batchSize recipients (Num 0) []"

text \<open>
  One round of that loop, on the index and the array of batches: the slice from the index
  is pushed and the index moves on by the batch size.
\<close>

definition splitRound ::
  "number \<Rightarrow> recipient list \<Rightarrow> number \<times> recipient list list
     \<Rightarrow> number \<times> recipient list list" where
  "splitRound batchSize recipients state =
     (case state of
        (i, batches) \<Rightarrow>
          (num_add i batchSize, batches @ [slice recipients i (num_add i batchSize)]))"

section \<open>Errors, hashes and the external collaborators\<close>

text \<open>
  Everything the wallet, the chain client and \<open>fs\<close> throw is an \<open>Error\<close> object; the engine
  only ever reads its \<open>message\<close>.
\<close>

datatype error = Error (message: string)

text \<open>
  A transaction hash is the hexadecimal digest that \<open>signAndBroadcast\<close> returns. It is never
  the empty string, so the test \<open>!hash\<close> of the engine is true exactly while no attempt
  has returned; the type has no empty value.
\<close>

datatype tx_hash = TxHash char string

fun hash_text :: "tx_hash \<Rightarrow> string" where
  "hash_text (TxHash c cs) = c # cs"

text \<open>Decimal text of a \<open>BigInt\<close>, as a template literal prints it.\<close>

function natToString :: "nat \<Rightarrow> string" where
  "natToString n =
     (if n < 10 then [char_of (48 + n)]
      else natToString (n div 10) @ [char_of (48 + n mod 10)])"
  by pat_completeness auto
termination
  by (relation "measure id") auto

declare natToString.simps [simp del]

definition bigIntToString :: "int \<Rightarrow> string" where
  "bigIntToString i = (if i < 0 then CHR ''-'' # natToString (nat (- i)) else natToString (nat i))"

text \<open>
  What the wallet and the chain answer to one call of \<open>executeMultiSend\<close>:
  \<open>createSigningClient\<close> (\<open>Some e\<close>: it throws \<open>e\<close>), \<open>getAddress\<close>, \<open>getBalance\<close> and
  \<open>signAndBroadcast\<close>.
\<close>

record reply =
  signingClient :: "error option"
  senderAddress :: "error + string"
  balance :: "error + string"
  broadcast :: "error + tx_hash"

text \<open>
  The parameters of a run. \<open>BigInt\<close> is the built-in conversion of a string to an
  arbitrary-precision integer, which throws on text that is not an integer literal.
  \<open>replies n\<close> is the answer of the network to the \<open>n\<close>-th call of \<open>executeMultiSend\<close>, and
  \<open>disk n\<close> the fate of the \<open>n\<close>-th write to a file (\<open>Some e\<close>: the write throws \<open>e\<close> and
  leaves the file as it was).
\<close>

record env =
  BigInt :: "string \<Rightarrow> error + int"
  denom :: string
  replies :: "nat \<Rightarrow> reply"
  disk :: "nat \<Rightarrow> error option"

section \<open>The outcome ledger and the observable effects\<close>

text \<open>
  A line of \<open>transaction-hashes.txt\<close>, without its timestamp: the header the constructor
  writes, a settled batch (number, recipient count, hash, and whether the line carries the
  mark \<open>(RETRY)\<close>), or the error line of a batch that failed.
\<close>

datatype log_entry =
    Header
  | HashEntry int nat tx_hash bool
  | ErrorEntry int nat string

text \<open>An element of \<open>failed-batches.json\<close>, without its timestamp.\<close>

record failedBatch =
  fb_batchNumber :: int
  fb_recipients :: "recipient list"
  fb_error :: string

text \<open>
  The file \<open>failed-batches.json\<close>: absent, present but such that \<open>readFileSync\<close> or
  \<open>JSON.parse\<close> throws, or holding an array of failed batches.
\<close>

datatype failed_file = Missing | Unparsable | Stored "failedBatch list"

datatype event =
    Execute "recipient list"
  | Broadcast string MultiSendTx
  | Sleep number
  | Warn string

text \<open>
  The state a run changes: the two files, the effects so far in order (calls of
  \<open>executeMultiSend\<close>, calls of \<open>signAndBroadcast\<close>, suspensions, \<open>console.warn\<close>), and how
  many network calls and file writes have been made. \<open>console.log\<close> and \<open>console.error\<close>
  are not recorded.
\<close>

record world =
  hashesFile :: "log_entry list"
  failedBatchesFile :: failed_file
  trace :: "event list"
  calls :: nat
  writes :: nat

definition sleep :: "number \<Rightarrow> world \<Rightarrow> world" where
  "sleep ms w = w\<lparr>trace := trace w @ [Sleep ms]\<rparr>"

text \<open>\<open>fs.appendFileSync(this.hashesFilePath, entry)\<close>\<close>

definition appendHashesFile :: "env \<Rightarrow> log_entry \<Rightarrow> world \<Rightarrow> error option \<times> world" where
  "appendHashesFile env entry w =
     (case disk env (writes w) of
        Some e \<Rightarrow> (Some e, w\<lparr>writes := Suc (writes w)\<rparr>)
      | None \<Rightarrow> (None, w\<lparr>hashesFile := hashesFile w @ [entry], writes := Suc (writes w)\<rparr>))"

text \<open>\<open>fs.writeFileSync(this.failedBatchesPath, JSON.stringify(batches))\<close>\<close>

definition writeFailedBatchesFile ::
  "env \<Rightarrow> failedBatch list \<Rightarrow> world \<Rightarrow> error option \<times> world" where
  "writeFailedBatchesFile env batches w =
     (case disk env (writes w) of
        Some e \<Rightarrow> (Some e, w\<lparr>writes := Suc (writes w)\<rparr>)
      | None \<Rightarrow> (None, w\<lparr>failedBatchesFile := Stored batches, writes := Suc (writes w)\<rparr>))"

section \<open>The Transaction Builder (multisend.ts)\<close>

text \<open>
  \<open>recipients.reduce((sum, recipient) => sum + BigInt(recipient.amount), BigInt(0))\<close>:
  the first amount that \<open>BigInt\<close> rejects ends the sum with its error.
\<close>

fun reduceAmounts :: "(string \<Rightarrow> error + int) \<Rightarrow> int \<Rightarrow> recipient list \<Rightarrow> error + int" where
  "reduceAmounts big acc [] = Inr acc"
| "reduceAmounts big acc (r # rs) =
     (case big (amount r) of
        Inl e \<Rightarrow> Inl e
      | Inr a \<Rightarrow> reduceAmounts big (acc + a) rs)"

definition createMultiSendTx :: "env \<Rightarrow> reply \<Rightarrow> recipient list \<Rightarrow> error + MultiSendTx" where
  "createMultiSendTx env r rs =
     (case senderAddress r of
        Inl e \<Rightarrow> Inl e
      | Inr sender \<Rightarrow>
         (case reduceAmounts (BigInt env) 0 rs of
            Inl e \<Rightarrow> Inl e
          | Inr totalAmount \<Rightarrow>
              Inr \<lparr>inputs =
                     [\<lparr>put_address = sender,
                       put_coins = [\<lparr>coin_denom = denom env,
                                     coin_amount = bigIntToString totalAmount\<rparr>]\<rparr>],
                   outputs =
                     map (\<lambda>rc. \<lparr>put_address = address rc,
                                put_coins = [\<lparr>coin_denom = denom env,
                                              coin_amount = amount rc\<rparr>]\<rparr>) rs\<rparr>))"

definition insufficientBalance :: "int \<Rightarrow> string \<Rightarrow> error" where
  "insufficientBalance totalAmount bal =
     Error (''Insufficient balance. Required: '' @ bigIntToString totalAmount
            @ '', Available: '' @ bal)"

text \<open>
  \<open>executeMultiSend\<close>: connect, ask for the address and the balance, add the amounts up,
  refuse when the balance is smaller, and only then build the message and hand it to
  \<open>signAndBroadcast\<close>. Whatever is thrown on the way is thrown on to the caller.
\<close>

definition executeMultiSend ::
  "env \<Rightarrow> recipient list \<Rightarrow> world \<Rightarrow> (error + tx_hash) \<times> world" where
  "executeMultiSend env rs w =
     (let r = replies env (calls w);
          w1 = w\<lparr>trace := trace w @ [Execute rs], calls := Suc (calls w)\<rparr>
      in case signingClient r of
           Some e \<Rightarrow> (Inl e, w1)
         | None \<Rightarrow>
      (case senderAddress r of
           Inl e \<Rightarrow> (Inl e, w1)
         | Inr sender \<Rightarrow>
      (case balance r of
           Inl e \<Rightarrow> (Inl e, w1)
         | Inr bal \<Rightarrow>
      (case reduceAmounts (BigInt env) 0 rs of
           Inl e \<Rightarrow> (Inl e, w1)
         | Inr totalAmount \<Rightarrow>
      (case BigInt env bal of
           Inl e \<Rightarrow> (Inl e, w1)
         | Inr b \<Rightarrow>
             if b < totalAmount then (Inl (insufficientBalance totalAmount bal), w1)
             else
               (case createMultiSendTx env r rs of
                  Inl e \<Rightarrow> (Inl e, w1)
                | Inr multiSendTx \<Rightarrow>
                    (broadcast r,
                     w1\<lparr>trace := trace w1 @ [Broadcast sender multiSendTx]\<rparr>)))))))"

section \<open>The Dispatch Engine (batch-processor.ts)\<close>

text \<open>\<open>BatchProcessor.saveTransactionHash\<close>: one more line in the hashes file.\<close>

definition saveTransactionHash ::
  "env \<Rightarrow> int \<Rightarrow> tx_hash \<Rightarrow> nat \<Rightarrow> world \<Rightarrow> error option \<times> world" where
  "saveTransactionHash env batchNumber hash recipientCount w =
     appendHashesFile env (HashEntry batchNumber recipientCount hash False) w"

text \<open>
  \<open>saveFailedBatch\<close>: read the stored array (an absent file is the empty array; a file
  that cannot be read or parsed is the empty array too, after \<open>console.warn\<close>), push the
  new failed batch and write the array back. The write is outside the \<open>try\<close>.
\<close>

definition saveFailedBatch ::
  "env \<Rightarrow> int \<Rightarrow> recipient list \<Rightarrow> error \<Rightarrow> world \<Rightarrow> error option \<times> world" where
  "saveFailedBatch env batchNumber rs err w =
     (let failedBatch = \<lparr>fb_batchNumber = batchNumber, fb_recipients = rs,
                         fb_error = message err\<rparr>;
          (failedBatches, w1) =
            (case failedBatchesFile w of
               Missing \<Rightarrow> ([], w)
             | Unparsable \<Rightarrow>
                 ([], w\<lparr>trace := trace w
                          @ [Warn ''Could not read failed batches file, creating new one'']\<rparr>)
             | Stored batches \<Rightarrow> (batches, w))
      in writeFailedBatchesFile env (failedBatches @ [failedBatch]) w1)"

text \<open>
  The retry loop of one batch,
  \<open>while (retryCount <= this.maxRetries && !hash)\<close>: it returns the hash if an attempt
  settled, the last error caught, and the state.
\<close>

function attemptLoop ::
  "env \<Rightarrow> number \<Rightarrow> number \<Rightarrow> recipient list \<Rightarrow> int \<Rightarrow> error option \<Rightarrow> world
     \<Rightarrow> tx_hash option \<times> error option \<times> world" where
  "attemptLoop env maxRetries retryDelayMs batchRecipients retryCount lastError w =
     (if num_le (Num retryCount) maxRetries then
        (let w1 = (if retryCount > 0 then sleep retryDelayMs w else w);
             (result, w2) = executeMultiSend env batchRecipients w1
         in case result of
              Inr hash \<Rightarrow> (Some hash, lastError, w2)
            | Inl err \<Rightarrow>
                attemptLoop env maxRetries retryDelayMs batchRecipients (retryCount + 1)
                  (Some err) w2)
      else (None, lastError, w))"
  by pat_completeness auto
termination
  by (relation "measure (\<lambda>(env, maxRetries, retryDelayMs, batchRecipients, retryCount, lastError, w).
          nat (toInteger maxRetries + 1 - retryCount))")
     (auto elim: num_le.elims)

declare attemptLoop.simps [simp del]

text \<open>
  The \<open>catch\<close> block of a batch: an error line in the hashes file, the failed batch in the
  failure store, and ten seconds of rest unless this was the last batch. Both writes are
  outside any \<open>try\<close>: an error of theirs leaves \<open>processBatches\<close>.
\<close>

definition catchBatchError ::
  "env \<Rightarrow> nat \<Rightarrow> nat \<Rightarrow> recipient list \<Rightarrow> tx_hash list \<Rightarrow> error \<Rightarrow> world
     \<Rightarrow> (error + tx_hash list) \<times> world" where
  "catchBatchError env n i batchRecipients hashes err w =
     (let batchNumber = int i + 1 in
      case appendHashesFile env
             (ErrorEntry batchNumber (length batchRecipients) (message err)) w of
        (Some e, w1) \<Rightarrow> (Inl e, w1)
      | (None, w1) \<Rightarrow>
          (case saveFailedBatch env batchNumber batchRecipients err w1 of
             (Some e, w2) \<Rightarrow> (Inl e, w2)
           | (None, w2) \<Rightarrow>
               (Inr hashes, if i < n - 1 then sleep (Num 10000) w2 else w2)))"

text \<open>
  The body of the \<open>for\<close> loop for the batch at index \<open>i\<close> of \<open>n\<close>. The preview of the
  recipients and the total printed with \<open>Number\<close> only write to the console and cannot
  throw; they are left out.
\<close>

definition processBatch ::
  "env \<Rightarrow> number \<Rightarrow> number \<Rightarrow> nat \<Rightarrow> nat \<Rightarrow> recipient list \<Rightarrow> tx_hash list \<Rightarrow> world
     \<Rightarrow> (error + tx_hash list) \<times> world" where
  "processBatch env maxRetries retryDelayMs n i batchRecipients hashes w =
     (let batchNumber = int i + 1 in
      case attemptLoop env maxRetries retryDelayMs batchRecipients 0 None w of
        (None, lastError, w1) \<Rightarrow>
          catchBatchError env n i batchRecipients hashes
            (case lastError of Some e \<Rightarrow> e | None \<Rightarrow> Error ''All retry attempts failed'') w1
      | (Some hash, lastError, w1) \<Rightarrow>
          (case saveTransactionHash env batchNumber hash (length batchRecipients) w1 of
             (Some e, w2) \<Rightarrow> catchBatchError env n i batchRecipients (hashes @ [hash]) e w2
           | (None, w2) \<Rightarrow>
               (Inr (hashes @ [hash]), if i < n - 1 then sleep (Num 3000) w2 else w2)))"

text \<open>The \<open>for\<close> loop: \<open>bs\<close> are the batches from index \<open>i\<close> on.\<close>

fun batchLoop ::
  "env \<Rightarrow> number \<Rightarrow> number \<Rightarrow> nat \<Rightarrow> nat \<Rightarrow> recipient list list \<Rightarrow> tx_hash list \<Rightarrow> world
     \<Rightarrow> (error + tx_hash list) \<times> world" where
  "batchLoop env maxRetries retryDelayMs n i [] hashes w = (Inr hashes, w)"
| "batchLoop env maxRetries retryDelayMs n i (b # bs) hashes w =
     (case processBatch env maxRetries retryDelayMs n i b hashes w of
        (Inl e, w1) \<Rightarrow> (Inl e, w1)
      | (Inr hashes1, w1) \<Rightarrow> batchLoop env maxRetries retryDelayMs n (Suc i) bs hashes1 w1)"

text \<open>
  \<open>processBatches\<close>: \<open>None\<close> when the Batcher never returns, otherwise what the run
  returns or throws, and the state it leaves.
\<close>

definition processBatches ::
  "env \<Rightarrow> number \<Rightarrow> number \<Rightarrow> number \<Rightarrow> recipient list \<Rightarrow> world
     \<Rightarrow> ((error + tx_hash list) \<times> world) option" where
  "processBatches env batchSize maxRetries retryDelayMs rs w =
     (case splitIntoBatches batchSize rs of
        None \<Rightarrow> None
      | Some batches \<Rightarrow>
          Some (batchLoop env maxRetries retryDelayMs (length batches) 0 batches [] w))"

section \<open>Resuming failed batches (retry-failed-batches.ts)\<close>

text \<open>\<open>FailedBatchRetrier.saveTransactionHash\<close>: the line carries \<open>(RETRY)\<close>.\<close>

definition retrier_saveTransactionHash ::
  "env \<Rightarrow> int \<Rightarrow> tx_hash \<Rightarrow> nat \<Rightarrow> world \<Rightarrow> error option \<times> world" where
  "retrier_saveTransactionHash env batchNumber hash recipientCount w =
     appendHashesFile env (HashEntry batchNumber recipientCount hash True) w"

text \<open>
  \<open>removeFromFailedBatches\<close>: drop every stored batch with this number and write the rest
  back. Reading and writing are inside one \<open>try\<close>, whose \<open>catch\<close> only logs.
\<close>

definition removeFromFailedBatches :: "env \<Rightarrow> int \<Rightarrow> world \<Rightarrow> world" where
  "removeFromFailedBatches env batchNumber w =
     (case failedBatchesFile w of
        Missing \<Rightarrow> w
      | Unparsable \<Rightarrow> w
      | Stored failedBatches \<Rightarrow>
          snd (writeFailedBatchesFile env
                 (filter (\<lambda>batch. fb_batchNumber batch \<noteq> batchNumber) failedBatches) w))"

definition getFailedBatches :: "world \<Rightarrow> failedBatch list" where
  "getFailedBatches w =
     (case failedBatchesFile w of
        Missing \<Rightarrow> []
      | Unparsable \<Rightarrow> []
      | Stored failedBatches \<Rightarrow> failedBatches)"

text \<open>
  The loop of \<open>retryBatch\<close>, \<open>while (retryCount < maxRetries && !success)\<close>. Saving the hash
  is inside the \<open>try\<close>: when it throws, the attempt counts as failed.
\<close>

function retryLoop ::
  "env \<Rightarrow> number \<Rightarrow> int \<Rightarrow> failedBatch \<Rightarrow> int \<Rightarrow> world \<Rightarrow> bool \<times> world" where
  "retryLoop env maxRetries batchNumber batchToRetry retryCount w =
     (if num_lt (Num retryCount) maxRetries then
        (let (result, w1) = executeMultiSend env (fb_recipients batchToRetry) w;
             (thrown, w2) =
               (case result of
                  Inl err \<Rightarrow> (True, w1)
                | Inr hash \<Rightarrow>
                    (case retrier_saveTransactionHash env batchNumber hash
                            (length (fb_recipients batchToRetry)) w1 of
                       (Some e, w') \<Rightarrow> (True, w')
                     | (None, w') \<Rightarrow> (False, removeFromFailedBatches env batchNumber w')))
         in if thrown then
              retryLoop env maxRetries batchNumber batchToRetry (retryCount + 1)
                (if num_lt (Num (retryCount + 1)) maxRetries then sleep (Num 10000) w2 else w2)
            else (True, w2))
      else (False, w))"
  by pat_completeness auto
termination
  by (relation "measure (\<lambda>(env, maxRetries, batchNumber, batchToRetry, retryCount, w).
          nat (toInteger maxRetries - retryCount))")
     (auto elim: num_lt.elims)

declare retryLoop.simps [simp del]

definition retryBatch :: "env \<Rightarrow> int \<Rightarrow> number \<Rightarrow> world \<Rightarrow> bool \<times> world" where
  "retryBatch env batchNumber maxRetries w =
     (case find (\<lambda>batch. fb_batchNumber batch = batchNumber) (getFailedBatches w) of
        None \<Rightarrow> (False, w)
      | Some batchToRetry \<Rightarrow> retryLoop env maxRetries batchNumber batchToRetry 0 w)"

text \<open>
  The loop of \<open>retryAllBatches\<close> over the array read at the start; the five seconds of
  rest are skipped after its last element.
\<close>

fun retryAllLoop ::
  "env \<Rightarrow> number \<Rightarrow> failedBatch list \<Rightarrow> nat \<Rightarrow> nat \<Rightarrow> world \<Rightarrow> (nat \<times> nat) \<times> world" where
  "retryAllLoop env maxRetries [] successCount failedCount w =
     ((successCount, failedCount), w)"
| "retryAllLoop env maxRetries (batch # rest) successCount failedCount w =
     (let (result, w1) = retryBatch env (fb_batchNumber batch) maxRetries w;
          w2 = (if rest \<noteq> [] then sleep (Num 5000) w1 else w1)
      in if result then retryAllLoop env maxRetries rest (Suc successCount) failedCount w2
         else retryAllLoop env maxRetries rest successCount (Suc failedCount) w2)"

definition retryAllBatches :: "env \<Rightarrow> number \<Rightarrow> world \<Rightarrow> (nat \<times> nat) \<times> world" where
  "retryAllBatches env maxRetries w =
     (let failedBatches = getFailedBatches w in
      if length failedBatches = 0 then ((0, 0), w)
      else retryAllLoop env maxRetries failedBatches 0 0 w)"

section \<open>The command line (index.ts)\<close>

text \<open>
  \<open>parseInt(s, 10)\<close>: leading white space is skipped, a sign is read, and the longest run
  of decimal digits is the value; with no digit the result is \<open>NaN\<close>. Only ASCII white
  space is recognised here.
\<close>

definition isWhiteSpace :: "char \<Rightarrow> bool" where
  "isWhiteSpace c = (let k = (of_char c :: nat) in k = 32 \<or> (9 \<le> k \<and> k \<le> 13))"

definition isDigit :: "char \<Rightarrow> bool" where
  "isDigit c = (let k = (of_char c :: nat) in 48 \<le> k \<and> k \<le> 57)"

definition digitsValue :: "string \<Rightarrow> nat" where
  "digitsValue z = foldl (\<lambda>v c. 10 * v + (of_char c - 48)) 0 z"

definition parseInt :: "string \<Rightarrow> number" where
  "parseInt s =
     (let t = dropWhile isWhiteSpace s;
          (sign, u) =
            (case t of
               [] \<Rightarrow> (1, t)
             | c # r \<Rightarrow>
                 if c = CHR ''-'' then (- 1, r)
                 else if c = CHR ''+'' then (1, r)
                 else (1, t));
          z = takeWhile isDigit u
      in if z = [] then NaN else Num (sign * int (digitsValue z)))"

definition startsWith :: "string \<Rightarrow> string \<Rightarrow> bool" where
  "startsWith prefix s = (take (length prefix) s = prefix)"

text \<open>
  \<open>args.find(arg => arg.startsWith(prefix))?.split('=')[1]\<close>: the text between the first
  and the second \<open>=\<close> of the first argument with this prefix (every prefix used ends with
  \<open>=\<close>), or \<open>undefined\<close>.
\<close>

definition argValue :: "string \<Rightarrow> string list \<Rightarrow> string option" where
  "argValue prefix argv =
     map_option
       (\<lambda>arg. takeWhile (\<lambda>c. c \<noteq> CHR ''='') (tl (dropWhile (\<lambda>c. c \<noteq> CHR ''='') arg)))
       (find (startsWith prefix) argv)"

text \<open>\<open>v || d\<close> for a string that may be \<open>undefined\<close>: the empty string is falsy.\<close>

definition orDefault :: "string option \<Rightarrow> string \<Rightarrow> string" where
  "orDefault v d = (case v of None \<Rightarrow> d | Some s \<Rightarrow> if s = [] then d else s)"

record args =
  retry :: bool
  batchSize :: number
  maxRetries :: number
  retryDelay :: number
  specificBatch :: "string option"

definition parseArgs :: "string list \<Rightarrow> args" where
  "parseArgs argv =
     \<lparr>retry = (''--retry'' \<in> set argv),
      batchSize = parseInt (orDefault (argValue ''--batch-size='' argv) ''400''),
      maxRetries = parseInt (orDefault (argValue ''--max-retries='' argv) ''3''),
      retryDelay = parseInt (orDefault (argValue ''--retry-delay='' argv) ''5000''),
      specificBatch = argValue ''--retry-batch='' argv\<rparr>"

text \<open>
  What \<open>main\<close> meets outside the engine: the wallet configuration, the answers to its own
  calls of \<open>getAddress\<close> and \<open>getBalance\<close>, what \<open>getRecipientsFromCsv\<close> returns or
  throws, and what becomes of a process whose array of batches can grow no further:
  \<open>None\<close> when the runtime aborts it with a fatal out-of-memory error, \<open>Some e\<close> when
  \<open>push\<close> throws \<open>e\<close> (the \<open>RangeError\<close> of an array of \<open>2^32 - 1\<close> elements).
\<close>

record startup =
  mnemonic :: "string option"
  privateKey :: "string option"
  startAddress :: "error + string"
  startBalance :: "error + string"
  csvRecipients :: "error + recipient list"
  arrayFull :: "error option"

definition truthy :: "string option \<Rightarrow> bool" where
  "truthy v = (case v of None \<Rightarrow> False | Some s \<Rightarrow> s \<noteq> [])"

definition validateConfig :: "startup \<Rightarrow> bool" where
  "validateConfig st = (\<not> (\<not> truthy (mnemonic st) \<and> \<not> truthy (privateKey st)))"

text \<open>The constructor of \<open>BatchProcessor\<close> starts the hashes file afresh with its header.\<close>

definition newBatchProcessor :: "env \<Rightarrow> world \<Rightarrow> error option \<times> world" where
  "newBatchProcessor env w =
     (case disk env (writes w) of
        Some e \<Rightarrow> (Some e, w\<lparr>writes := Suc (writes w)\<rparr>)
      | None \<Rightarrow> (None, w\<lparr>hashesFile := [Header], writes := Suc (writes w)\<rparr>))"

text \<open>How a process ends: with an exit status, or aborted by the runtime.\<close>

datatype ending = Exit nat | Abort

text \<open>The test of the block that prints the usage, at the end of \<open>index.ts\<close>.\<close>

definition helpRequested :: "string list \<Rightarrow> bool" where
  "helpRequested argv = (''--help'' \<in> set argv \<or> ''-h'' \<in> set argv)"

text \<open>
  The process of \<open>index.ts\<close>, as the way it ends and the state it leaves.

  The module calls \<open>main()\<close> and then runs the block that prints the usage. \<open>main\<close> runs
  up to its first \<open>await\<close> before that block: it parses the arguments and, with \<open>--retry\<close>
  and a batch number that is not a number, ends the process with status 1 at once. In
  every other case \<open>main\<close> is suspended (at \<open>retryBatch\<close>, \<open>retryAllBatches\<close> or
  \<open>validateConfig\<close>) before any file is written and before any request goes to the
  network (a resume has at most entered \<open>executeMultiSend\<close>, which is itself suspended
  while the wallet is built), and with \<open>--help\<close> or \<open>-h\<close> the block ends the process
  with status 0 there: nothing of the run has taken effect.

  Otherwise \<open>main\<close> goes on. Whatever it catches ends the process with status 1; a run
  that returns from \<open>processBatches\<close> ends with status 0. When the Batcher has no result
  (its loop pushes one more batch in every round and never leaves), the process ends when
  the array of batches can grow no further, as \<open>arrayFull\<close> says: aborted by the runtime,
  or with status 1 when \<open>push\<close> throws and \<open>main\<close> catches it.
\<close>

definition main :: "env \<Rightarrow> startup \<Rightarrow> string list \<Rightarrow> world \<Rightarrow> ending \<times> world" where
  "main env st argv w =
     (let a = parseArgs argv in
      if retry a then
        (if truthy (specificBatch a) then
           (case parseInt (the (specificBatch a)) of
              NaN \<Rightarrow> (Exit 1, w)
            | Num batchNumber \<Rightarrow>
                if helpRequested argv then (Exit 0, w)
                else
                  (let (success, w1) = retryBatch env batchNumber (maxRetries a) w
                   in (Exit (if success then 0 else 1), w1)))
         else if helpRequested argv then (Exit 0, w)
         else
           (let ((succeeded, failed), w1) = retryAllBatches env (maxRetries a) w
            in (Exit (if failed > 0 then 1 else 0), w1)))
      else if helpRequested argv then (Exit 0, w)
      else if \<not> validateConfig st then (Exit 1, w)
      else
        (case startAddress st of
           Inl e \<Rightarrow> (Exit 1, w)
         | Inr sender \<Rightarrow>
        (case startBalance st of
           Inl e \<Rightarrow> (Exit 1, w)
         | Inr bal \<Rightarrow>
        (case csvRecipients st of
           Inl e \<Rightarrow> (Exit 1, w)
         | Inr rs \<Rightarrow>
             if length rs = 0 then (Exit 1, w)
             else
               (case newBatchProcessor env w of
                  (Some e, w1) \<Rightarrow> (Exit 1, w1)
                | (None, w1) \<Rightarrow>
                    (case reduceAmounts (BigInt env) 0 rs of
                       Inl e \<Rightarrow> (Exit 1, w1)
                     | Inr totalAmount \<Rightarrow>
                         (case processBatches env (batchSize a) (maxRetries a) (retryDelay a)
                                 rs w1 of
                            None \<Rightarrow>
                              (case arrayFull st of
                                 None \<Rightarrow> (Abort, w1)
                               | Some e \<Rightarrow> (Exit 1, w1))
                          | Some (Inl e, w2) \<Rightarrow> (Exit 1, w2)
                          | Some (Inr hashes, w2) \<Rightarrow> (Exit 0, w2))))))))"

section \<open>Reading a trace and a settlement log\<close>

fun isExecute :: "event \<Rightarrow> bool" where
  "isExecute (Execute rs) = True"
| "isExecute _ = False"

fun isBroadcast :: "event \<Rightarrow> bool" where
  "isBroadcast (Broadcast sender tx) = True"
| "isBroadcast _ = False"

text \<open>The events of the engine itself: attempts, suspensions and warnings.\<close>

definition engineEvents :: "event list \<Rightarrow> event list" where
  "engineEvents tr = filter (\<lambda>e. \<not> isBroadcast e) tr"

text \<open>
  The events of \<open>m\<close> attempts on the same recipients with a suspension between two
  attempts, and none before the first or after the last.
\<close>

fun attemptsWithDelay :: "number \<Rightarrow> recipient list \<Rightarrow> nat \<Rightarrow> event list" where
  "attemptsWithDelay delay rs 0 = []"
| "attemptsWithDelay delay rs (Suc m) = Execute rs # concat (replicate m [Sleep delay, Execute rs])"

text \<open>
  The events of resuming the given failed batches one after the other, each with \<open>m\<close>
  attempts on its own stored recipients ten seconds apart, and five seconds between two
  failed batches.
\<close>

fun resumeAllEvents :: "nat \<Rightarrow> failedBatch list \<Rightarrow> event list" where
  "resumeAllEvents m [] = []"
| "resumeAllEvents m (batch # rest) =
     attemptsWithDelay (Num 10000) (fb_recipients batch) m
     @ (if rest \<noteq> [] then [Sleep (Num 5000)] else [])
     @ resumeAllEvents m rest"

text \<open>
  The events of resuming failed batches one after the other, each with its own number of
  attempts on its own stored recipients ten seconds apart, and five seconds between two
  failed batches.
\<close>

fun resumeEvents :: "(failedBatch \<times> nat) list \<Rightarrow> event list" where
  "resumeEvents [] = []"
| "resumeEvents ((batch, m) # rest) =
     attemptsWithDelay (Num 10000) (fb_recipients batch) m
     @ (if rest \<noteq> [] then [Sleep (Num 5000)] else [])
     @ resumeEvents rest"

text \<open>A state in which \<open>c\<close> network calls have been made and nothing else has happened.\<close>

definition atCall :: "nat \<Rightarrow> world" where
  "atCall c =
     \<lparr>hashesFile = [], failedBatchesFile = Missing, trace = [], calls = c, writes = 0\<rparr>"

text \<open>
  What the network makes of the batches of a run, one after the other, when the run starts
  at network call \<open>c\<close>: for each batch, the hash its retry loop obtains, if any, and the
  last error the loop caught, if any.
\<close>

fun outcomes ::
  "env \<Rightarrow> number \<Rightarrow> number \<Rightarrow> recipient list list \<Rightarrow> nat
     \<Rightarrow> (tx_hash option \<times> error option) list" where
  "outcomes env mr d [] c = []"
| "outcomes env mr d (b # bs) c =
     (case attemptLoop env mr d b 0 None (atCall c) of
        (hash, lastError, w1) \<Rightarrow> (hash, lastError) # outcomes env mr d bs (calls w1))"

text \<open>\<open>lastError || new Error('All retry attempts failed')\<close>\<close>

definition thrownError :: "error option \<Rightarrow> error" where
  "thrownError lastError =
     (case lastError of Some e \<Rightarrow> e | None \<Rightarrow> Error ''All retry attempts failed'')"

text \<open>
  The line of the hashes file that goes with the outcome of the batch at index \<open>i\<close>: the
  line of its hash when its retry loop obtained one, its error line otherwise.
\<close>

fun ledgerLine :: "nat \<times> recipient list \<times> (tx_hash option \<times> error option) \<Rightarrow> log_entry" where
  "ledgerLine (i, b, (Some hash, lastError)) = HashEntry (int i + 1) (length b) hash False"
| "ledgerLine (i, b, (None, lastError)) =
     ErrorEntry (int i + 1) (length b) (message (thrownError lastError))"

text \<open>
  The failed batch that goes with an error line, given the recipients of the batch the line
  is about.
\<close>

fun failureOf :: "recipient list \<times> log_entry \<Rightarrow> failedBatch list" where
  "failureOf (b, ErrorEntry batchNumber recipientCount msg) =
     [\<lparr>fb_batchNumber = batchNumber, fb_recipients = b, fb_error = msg\<rparr>]"
| "failureOf (b, _) = []"

section \<open>Stand-ins for the collaborators, for running the model\<close>

text \<open>
  A conversion that agrees with \<open>BigInt\<close> on strings of decimal digits (the empty string
  is 0) and rejects every other string.
\<close>

definition decimalBigInt :: "string \<Rightarrow> error + int" where
  "decimalBigInt s =
     (if list_all isDigit s then Inr (int (digitsValue s))
      else Inl (Error (''Cannot convert '' @ s @ '' to a BigInt'')))"

definition hashA :: tx_hash where
  "hashA = TxHash CHR ''A'' ''1F0''"

text \<open>A network that settles every transfer, with the given balance.\<close>

definition settles :: "string \<Rightarrow> reply" where
  "settles bal =
     \<lparr>signingClient = None, senderAddress = Inr ''zig1sender'', balance = Inr bal,
      broadcast = Inr hashA\<rparr>"

text \<open>A network that cannot be reached.\<close>

definition unreachable :: reply where
  "unreachable =
     \<lparr>signingClient = Some (Error ''connect ETIMEDOUT''), senderAddress = Inr ''zig1sender'',
      balance = Inr ''0'', broadcast = Inl (Error ''connect ETIMEDOUT'')\<rparr>"

definition envSettles :: env where
  "envSettles =
     \<lparr>BigInt = decimalBigInt, denom = ''uzig'', replies = (\<lambda>n. settles ''1000''),
      disk = (\<lambda>n. None)\<rparr>"

definition envUnreachable :: env where
  "envUnreachable =
     \<lparr>BigInt = decimalBigInt, denom = ''uzig'', replies = (\<lambda>n. unreachable),
      disk = (\<lambda>n. None)\<rparr>"


text \<open>The first call of the network fails and every later one settles.\<close>

definition envFirstCallFails :: env where
  "envFirstCallFails =
     \<lparr>BigInt = decimalBigInt, denom = ''uzig'',
      replies = (\<lambda>n. if n = 0 then unreachable else settles ''1000''),
      disk = (\<lambda>n. None)\<rparr>"


definition alice :: recipient where
  "alice = \<lparr>address = ''zig1alice'', amount = ''5''\<rparr>"

definition bob :: recipient where
  "bob = \<lparr>address = ''zig1bob'', amount = ''7''\<rparr>"

definition carol :: recipient where
  "carol = \<lparr>address = ''zig1carol'', amount = ''11''\<rparr>"

definition dave :: recipient where
  "dave = \<lparr>address = ''zig1dave'', amount = ''999''\<rparr>"

definition emptyWorld :: world where
  "emptyWorld =
     \<lparr>hashesFile = [Header], failedBatchesFile = Missing, trace = [], calls = 0, writes = 0\<rparr>"

text \<open>A failure store left by an earlier run: batch 1, holding alice and bob.\<close>

definition failedOne :: failedBatch where
  "failedOne =
     \<lparr>fb_batchNumber = 1, fb_recipients = [alice, bob], fb_error = ''connect ETIMEDOUT''\<rparr>"

definition worldFailedOne :: world where
  "worldFailedOne = emptyWorld\<lparr>failedBatchesFile := Stored [failedOne]\<rparr>"

text \<open>A failure store that cannot be parsed.\<close>

definition worldUnparsable :: world where
  "worldUnparsable = emptyWorld\<lparr>failedBatchesFile := Unparsable\<rparr>"

definition validStartup :: startup where
  "validStartup =
     \<lparr>mnemonic = Some ''abandon ability'', privateKey = None,
      startAddress = Inr ''zig1sender'', startBalance = Inr ''1000'',
      csvRecipients = Inr [alice, bob, carol], arrayFull = None\<rparr>"

text \<open>A second failed batch, number 2, holding carol.\<close>

definition failedTwo :: failedBatch where
  "failedTwo =
     \<lparr>fb_batchNumber = 2, fb_recipients = [carol], fb_error = ''connect ETIMEDOUT''\<rparr>"

definition worldFailedTwo :: world where
  "worldFailedTwo = emptyWorld\<lparr>failedBatchesFile := Stored [failedOne, failedTwo]\<rparr>"

section \<open>The Batcher partitions its input\<close>

lemma slice_window:
  "i \<le> length xs \<Longrightarrow> 0 \<le> n \<Longrightarrow>
   slice xs (Num (int i)) (Num (int i + n)) = take (nat n) (drop i xs)"
  by (auto simp: slice_def Let_def min_def max_def)

text \<open>
  From index \<open>i\<close> on, with a positive batch size, the loop returns, and what it adds to the
  batches is a partition of the recipients from \<open>i\<close> on into non-empty windows of at most
  \<open>n\<close> elements. The distance to the end of the array shrinks in every round.
\<close>

lemma splitLoop_returns:
  assumes n: "1 \<le> n"
  shows "\<exists>bs. splitLoop (Num n) R (Num (int i)) acc = Some (acc @ bs) \<and> concat bs = drop i R
            \<and> (\<forall>b\<in>set bs. 1 \<le> length b \<and> int (length b) \<le> n)"
proof (induction "length R - i" arbitrary: i acc rule: less_induct)
  case less
  show ?case
  proof (cases "i < length R")
    case False
    then show ?thesis by (subst splitLoop.simps) simp
  next
    case True
    let ?b = "take (nat n) (drop i R)"
    have window: "slice R (Num (int i)) (Num (int i + n)) = ?b"
      using True n by (simp add: slice_window)
    have "length R - (i + nat n) < length R - i" using True n by auto
    from less[OF this, of "acc @ [?b]"]
    obtain bs where bs:
      "splitLoop (Num n) R (Num (int (i + nat n))) (acc @ [?b]) = Some ((acc @ [?b]) @ bs)"
      "concat bs = drop (i + nat n) R"
      "\<forall>b\<in>set bs. 1 \<le> length b \<and> int (length b) \<le> n"
      by blast
    have round: "splitLoop (Num n) R (Num (int i)) acc
                 = splitLoop (Num n) R (Num (int (i + nat n))) (acc @ [?b])"
      using True n by (subst splitLoop.simps) (simp add: window)
    have whole: "concat (?b # bs) = drop i R"
    proof -
      have "drop (i + nat n) R = drop (nat n) (drop i R)"
        by (simp add: add.commute)
      then show ?thesis
        using bs(2) by (simp only: concat.simps append_take_drop_id)
    qed
    have size: "1 \<le> length ?b \<and> int (length ?b) \<le> n" using True n by auto
    have "splitLoop (Num n) R (Num (int i)) acc = Some (acc @ ?b # bs)"
      using round bs(1) by simp
    moreover have "\<forall>b\<in>set (?b # bs). 1 \<le> length b \<and> int (length b) \<le> n"
      using size bs(3) by simp
    ultimately show ?thesis
      using whole by blast
  qed
qed

text \<open>
  C1. For every recipient sequence \<open>R\<close> and every batch size \<open>n \<ge> 1\<close>, \<open>splitIntoBatches\<close>
  returns; the batches, concatenated in order, are \<open>R\<close> itself; every batch has at least
  one and at most \<open>n\<close> recipients; and the empty sequence gives no batch at all.
\<close>

theorem splitIntoBatches_partition:
  assumes "1 \<le> n"
  shows "\<exists>bs. splitIntoBatches (Num n) R = Some bs \<and> concat bs = R
            \<and> (\<forall>b\<in>set bs. 1 \<le> length b \<and> int (length b) \<le> n)
            \<and> (R = [] \<longrightarrow> bs = [])"
proof -
  from splitLoop_returns[OF assms, of R 0 "[]"]
  obtain bs where bs: "splitLoop (Num n) R (Num 0) [] = Some bs" "concat bs = R"
     "\<forall>b\<in>set bs. 1 \<le> length b \<and> int (length b) \<le> n" by auto
  have "R = [] \<longrightarrow> bs = []" using bs(2,3) by (cases bs) auto
  then show ?thesis using bs by (auto simp: splitIntoBatches_def)
qed

theorem splitIntoBatches_partition_witness:
  "(1::int) \<le> 2 \<and>
   (\<exists>bs. splitIntoBatches (Num 2) [alice, bob, carol] = Some bs
      \<and> concat bs = [alice, bob, carol]
      \<and> list_all (\<lambda>b. 1 \<le> length b \<and> int (length b) \<le> 2) bs)"
  using splitIntoBatches_partition[of 2 "[alice, bob, carol]"]
  by (simp add: list_all_iff)

section \<open>What one call and one retry loop change\<close>

text \<open>
  A call of \<open>executeMultiSend\<close> adds its own event and at most one broadcast to the trace,
  counts one network call, and touches nothing else.
\<close>

lemma executeMultiSend_cases:
  "snd (executeMultiSend env rs w) = w\<lparr>trace := trace w @ [Execute rs], calls := Suc (calls w)\<rparr>
   \<or> (\<exists>sender tx. snd (executeMultiSend env rs w)
          = w\<lparr>trace := trace w @ [Execute rs, Broadcast sender tx], calls := Suc (calls w)\<rparr>)"
  unfolding executeMultiSend_def Let_def
  by (cases w) (simp split: option.splits sum.splits)

lemma executeMultiSend_world:
  "\<exists>bc. snd (executeMultiSend env rs w)
          = w\<lparr>trace := trace w @ Execute rs # bc, calls := Suc (calls w)\<rparr>
        \<and> list_all isBroadcast bc"
proof -
  from executeMultiSend_cases[of env rs w] show ?thesis
  proof
    assume "snd (executeMultiSend env rs w) = w\<lparr>trace := trace w @ [Execute rs], calls := Suc (calls w)\<rparr>"
    then show ?thesis by (intro exI[of _ "[]"]) simp
  next
    assume "\<exists>sender tx. snd (executeMultiSend env rs w)
          = w\<lparr>trace := trace w @ [Execute rs, Broadcast sender tx], calls := Suc (calls w)\<rparr>"
    then obtain sender tx where "snd (executeMultiSend env rs w)
          = w\<lparr>trace := trace w @ [Execute rs, Broadcast sender tx], calls := Suc (calls w)\<rparr>" by blast
    then show ?thesis by (intro exI[of _ "[Broadcast sender tx]"]) simp
  qed
qed

lemma no_execute_in_broadcasts: "list_all isBroadcast bc \<Longrightarrow> filter isExecute bc = []"
  by (induction bc) (auto elim: isBroadcast.elims)

text \<open>The retry loop of a batch only extends the trace and counts its calls: no file changes.\<close>

lemma attemptLoop_world:
  "attemptLoop env mr d b k le w = (h, le', w') \<Longrightarrow>
   \<exists>tr. w' = w\<lparr>trace := trace w @ tr, calls := calls w + length (filter isExecute tr)\<rparr>"
proof (induction env mr d b k le w rule: attemptLoop.induct)
  case (1 env mr d b k le w)
  show ?case
  proof (cases "num_le (Num k) mr")
    case False
    with "1.prems" have "w' = w" by (simp add: attemptLoop.simps)
    then show ?thesis by (intro exI[of _ "[]"]) simp
  next
    case True
    let ?w1 = "if 0 < k then sleep d w else w"
    obtain res w2 where ex: "executeMultiSend env b ?w1 = (res, w2)"
      by (cases "executeMultiSend env b ?w1")
    from executeMultiSend_world[of env b ?w1] ex obtain bc where
      w2: "w2 = ?w1\<lparr>trace := trace ?w1 @ Execute b # bc, calls := Suc (calls ?w1)\<rparr>"
      and bc: "list_all isBroadcast bc" by auto
    note nb = no_execute_in_broadcasts[OF bc]
    show ?thesis
    proof (cases res)
      case (Inr hash)
      with "1.prems" True ex have "w' = w2"
        by (subst (asm) attemptLoop.simps) simp
      then show ?thesis
        using w2 nb
        by (intro exI[of _ "(if k > 0 then [Sleep d] else []) @ Execute b # bc"])
           (simp add: sleep_def)
    next
      case (Inl err)
      with "1.prems" True ex
      have rec: "attemptLoop env mr d b (k + 1) (Some err) w2 = (h, le', w')"
        by (subst (asm) attemptLoop.simps) simp
      from "1.IH"[OF True refl refl ex[symmetric] Inl rec]
      obtain tr where "w' = w2\<lparr>trace := trace w2 @ tr, calls := calls w2 + length (filter isExecute tr)\<rparr>"
        by blast
      then show ?thesis
        using w2 nb
        by (intro exI[of _ "(if k > 0 then [Sleep d] else []) @ Execute b # bc @ tr"])
           (simp add: sleep_def)
    qed
  qed
qed

lemma no_broadcast_kept: "list_all isBroadcast bc \<Longrightarrow> engineEvents bc = []"
  by (induction bc) (auto simp: engineEvents_def)

section \<open>The retry bound of a batch\<close>

text \<open>
  Against a network that fails every call, the loop entered at retry count \<open>k \<ge> 1\<close> runs
  \<open>m + 1 - k\<close> more rounds, each a suspension followed by an attempt.
\<close>

lemma attemptLoop_exhausts:
  assumes fails: "\<forall>rs w. \<exists>e. fst (executeMultiSend env rs w) = Inl e"
  shows "1 \<le> k \<Longrightarrow> k \<le> m + 1 \<Longrightarrow>
     \<exists>e tr w'. attemptLoop env (Num m) d b k (Some e0) w = (None, Some e, w')
        \<and> w' = w\<lparr>trace := trace w @ tr, calls := calls w + nat (m + 1 - k)\<rparr>
        \<and> engineEvents tr = concat (replicate (nat (m + 1 - k)) [Sleep d, Execute b])
        \<and> length (filter isExecute tr) = nat (m + 1 - k)"
proof (induction "nat (m + 1 - k)" arbitrary: k e0 w)
  case 0
  then have "k = m + 1" by simp
  then have "attemptLoop env (Num m) d b k (Some e0) w = (None, Some e0, w)"
    by (subst attemptLoop.simps) simp
  then show ?case using \<open>k = m + 1\<close> by (intro exI[of _ e0] exI[of _ "[]"] exI[of _ w]) (simp add: engineEvents_def)
next
  case (Suc j)
  then have le: "k \<le> m" and j: "j = nat (m + 1 - (k + 1))" by auto
  let ?w1 = "sleep d w"
  from fails obtain e1 where e1: "fst (executeMultiSend env b ?w1) = Inl e1" by blast
  then obtain w2 where ex: "executeMultiSend env b ?w1 = (Inl e1, w2)"
    by (cases "executeMultiSend env b ?w1") simp
  from executeMultiSend_world[of env b ?w1] ex obtain bc where
    w2: "w2 = ?w1\<lparr>trace := trace ?w1 @ Execute b # bc, calls := Suc (calls ?w1)\<rparr>"
    and bc: "list_all isBroadcast bc" by auto
  have step: "attemptLoop env (Num m) d b k (Some e0) w = attemptLoop env (Num m) d b (k + 1) (Some e1) w2"
    using le Suc.prems(1) ex by (subst attemptLoop.simps) simp
  from Suc.hyps(1)[OF j, of e1 w2] Suc.prems le
  obtain e tr w' where r: "attemptLoop env (Num m) d b (k + 1) (Some e1) w2 = (None, Some e, w')"
    "w' = w2\<lparr>trace := trace w2 @ tr, calls := calls w2 + nat (m + 1 - (k + 1))\<rparr>"
    "engineEvents tr = concat (replicate (nat (m + 1 - (k + 1))) [Sleep d, Execute b])"
    "length (filter isExecute tr) = nat (m + 1 - (k + 1))"
    by auto
  have cnt: "nat (m + 1 - k) = Suc (nat (m + 1 - (k + 1)))" using le by simp
  show ?case
    apply (intro exI[of _ e] exI[of _ "Sleep d # Execute b # bc @ tr"] exI[of _ w'])
    using step r w2 cnt no_broadcast_kept[OF bc] no_execute_in_broadcasts[OF bc]
    apply (cases w)
    apply (simp add: sleep_def engineEvents_def)
    done
qed

text \<open>
  The \<open>catch\<close> block of a batch makes no network call and no attempt.
\<close>

lemma catchBatchError_world:
  "catchBatchError env n i b hs err w = (res, w') \<Longrightarrow>
   calls w' = calls w \<and> filter isExecute (trace w') = filter isExecute (trace w)"
  by (auto simp: catchBatchError_def appendHashesFile_def saveFailedBatch_def
      writeFailedBatchesFile_def sleep_def Let_def
      split: option.splits failed_file.splits if_splits)

lemma filter_execute_pattern:
  "filter isExecute (concat (replicate k [Sleep d, Execute b])) = replicate k (Execute b)"
  by (induction k) simp_all

lemma filter_execute_engineEvents: "filter isExecute (engineEvents tr) = filter isExecute tr"
  by (induction tr) (auto simp: engineEvents_def elim: isBroadcast.elims)

text \<open>
  Against a network that fails every call, the retry loop of a batch, entered at its
  start, makes \<open>m + 1\<close> attempts, with the retry delay before each of them but the first,
  and ends without a hash, holding the last error.
\<close>

lemma attemptLoop_all_fail:
  assumes fails: "\<forall>rs w. \<exists>e. fst (executeMultiSend env rs w) = Inl e" and m: "0 \<le> m"
  shows "\<exists>e tr w1. attemptLoop env (Num m) d b 0 None w = (None, Some e, w1)
        \<and> w1 = w\<lparr>trace := trace w @ tr, calls := calls w + nat (m + 1)\<rparr>
        \<and> engineEvents tr = Execute b # concat (replicate (nat m) [Sleep d, Execute b])
        \<and> filter isExecute tr = replicate (nat (m + 1)) (Execute b)"
proof -
  from fails obtain e1 where e1: "fst (executeMultiSend env b w) = Inl e1" by blast
  then obtain w2 where ex: "executeMultiSend env b w = (Inl e1, w2)"
    by (cases "executeMultiSend env b w") simp
  from executeMultiSend_world[of env b w] ex obtain bc where
    w2: "w2 = w\<lparr>trace := trace w @ Execute b # bc, calls := Suc (calls w)\<rparr>"
    and bc: "list_all isBroadcast bc" by auto
  have step: "attemptLoop env (Num m) d b 0 None w = attemptLoop env (Num m) d b 1 (Some e1) w2"
    using m ex by (subst attemptLoop.simps) simp
  from attemptLoop_exhausts[OF fails, of 1 m d b e1 w2] m
  obtain e tr w' where r: "attemptLoop env (Num m) d b 1 (Some e1) w2 = (None, Some e, w')"
    "w' = w2\<lparr>trace := trace w2 @ tr, calls := calls w2 + nat m\<rparr>"
    "engineEvents tr = concat (replicate (nat m) [Sleep d, Execute b])"
    "length (filter isExecute tr) = nat m"
    by auto
  have loop: "attemptLoop env (Num m) d b 0 None w = (None, Some e, w')" using step r(1) by simp
  have cnt: "nat (m + 1) = Suc (nat m)" using m by simp
  have ev: "engineEvents (Execute b # bc @ tr)
            = Execute b # concat (replicate (nat m) [Sleep d, Execute b])"
    using r(3) no_broadcast_kept[OF bc] by (simp add: engineEvents_def)
  have "filter isExecute (Execute b # bc @ tr) = filter isExecute (engineEvents (Execute b # bc @ tr))"
    by (simp only: filter_execute_engineEvents)
  also have "\<dots> = replicate (nat (m + 1)) (Execute b)"
    by (simp only: ev) (simp add: filter_execute_pattern cnt)
  finally have fx: "filter isExecute (Execute b # bc @ tr) = replicate (nat (m + 1)) (Execute b)" .
  have w': "w' = w\<lparr>trace := trace w @ (Execute b # bc @ tr), calls := calls w + nat (m + 1)\<rparr>"
    using r(2) w2 cnt by (cases w) simp
  show ?thesis
    using loop w' ev fx by blast
qed

text \<open>
  When its two writes are accepted, the \<open>catch\<close> block writes the error line and the
  failed batch and returns normally. To the trace it adds the warning of a store that
  cannot be read, if there is one, and the rest before the next batch.
\<close>

lemma catchBatchError_two_writes:
  assumes "disk env (writes w) = None" and "disk env (Suc (writes w)) = None"
  shows "\<exists>w'. catchBatchError env n i b hs err w = (Inr hs, w')
     \<and> hashesFile w' = hashesFile w @ [ErrorEntry (int i + 1) (length b) (message err)]
     \<and> getFailedBatches w' = getFailedBatches w
          @ [\<lparr>fb_batchNumber = int i + 1, fb_recipients = b, fb_error = message err\<rparr>]
     \<and> trace w' = trace w @ (if failedBatchesFile w = Unparsable
                              then [Warn ''Could not read failed batches file, creating new one'']
                              else [])
                          @ (if i < n - 1 then [Sleep (Num 10000)] else [])"
  using assms
  by (auto simp: catchBatchError_def appendHashesFile_def saveFailedBatch_def
      writeFailedBatchesFile_def getFailedBatches_def sleep_def Let_def
      split: failed_file.splits)

text \<open>
  The loop over the batches against such a network, with a disk that accepts every write, by
  induction on the batches left.
\<close>

lemma batchLoop_all_fail:
  assumes fails: "\<forall>rs w. \<exists>e. fst (executeMultiSend env rs w) = Inl e" and m: "0 \<le> m"
    and nofault: "\<forall>k. disk env k = None"
  shows "\<exists>w'. batchLoop env (Num m) d n i bs hashes w = (Inr hashes, w')
     \<and> filter isExecute (trace w')
         = filter isExecute (trace w) @ concat (map (\<lambda>b. replicate (nat (m + 1)) (Execute b)) bs)
     \<and> calls w' = calls w + length bs * nat (m + 1)
     \<and> map fb_recipients (getFailedBatches w') = map fb_recipients (getFailedBatches w) @ bs"
proof (induction bs arbitrary: i w)
  case Nil
  show ?case by simp
next
  case (Cons b bs)
  from attemptLoop_all_fail[OF fails m, of d b w]
  obtain e tr w1 where a: "attemptLoop env (Num m) d b 0 None w = (None, Some e, w1)"
    "w1 = w\<lparr>trace := trace w @ tr, calls := calls w + nat (m + 1)\<rparr>"
    "filter isExecute tr = replicate (nat (m + 1)) (Execute b)" by blast
  have d1: "disk env (writes w1) = None" "disk env (Suc (writes w1)) = None"
    using nofault by simp_all
  from catchBatchError_two_writes[OF d1, of n i b hashes e]
  obtain w2 where c: "catchBatchError env n i b hashes e w1 = (Inr hashes, w2)"
    "getFailedBatches w2 = getFailedBatches w1
          @ [\<lparr>fb_batchNumber = int i + 1, fb_recipients = b, fb_error = message e\<rparr>]"
    by blast
  have pb: "processBatch env (Num m) d n i b hashes w = (Inr hashes, w2)"
    using c(1) by (simp add: processBatch_def a(1))
  from catchBatchError_world[OF c(1)]
  have w2: "calls w2 = calls w + nat (m + 1)"
    "filter isExecute (trace w2) = filter isExecute (trace w) @ replicate (nat (m + 1)) (Execute b)"
    using a(2,3) by simp_all
  have g1: "getFailedBatches w1 = getFailedBatches w" using a(2) by (simp add: getFailedBatches_def)
  from Cons.IH[of "Suc i" w2]
  obtain w' where r: "batchLoop env (Num m) d n (Suc i) bs hashes w2 = (Inr hashes, w')"
    "filter isExecute (trace w')
         = filter isExecute (trace w2) @ concat (map (\<lambda>b. replicate (nat (m + 1)) (Execute b)) bs)"
    "calls w' = calls w2 + length bs * nat (m + 1)"
    "map fb_recipients (getFailedBatches w') = map fb_recipients (getFailedBatches w2) @ bs"
    by blast
  show ?case
    using pb r w2 c(2) g1 by (intro exI[of _ w']) simp
qed

text \<open>
  C2. Against a Transaction Builder that fails every call, the retry loop of a batch makes
  exactly \<open>maxRetries + 1\<close> attempts and ends without a hash, with the retry delay between
  two attempts and none before the first. \<open>processBatch\<close>, the body of the loop of
  \<open>processBatches\<close>, makes exactly these \<open>maxRetries + 1\<close> calls for the batch, whatever
  the disk does. The failure store is untouched while the attempts are made; when the two
  writes of the \<open>catch\<close> block are accepted, the error line and the failed batch, with
  the message of the last error, are written after the last attempt, and nothing follows
  but the rest before the next batch. A whole run of \<open>processBatches\<close> with a batch size
  of at least one and a disk that accepts every write makes exactly \<open>maxRetries + 1\<close>
  attempts on each batch, in the order of the batches, returns no hash and has stored one
  failed batch for each batch.
\<close>

theorem retry_bound:
  assumes fails: "\<forall>rs w. \<exists>e. fst (executeMultiSend env rs w) = Inl e" and m: "0 \<le> m"
  shows "\<exists>e tr w1.
           attemptLoop env (Num m) d b 0 None w = (None, Some e, w1)
         \<and> w1 = w\<lparr>trace := trace w @ tr, calls := calls w + nat (m + 1)\<rparr>
         \<and> engineEvents tr = Execute b # concat (replicate (nat m) [Sleep d, Execute b])
         \<and> int (length (filter isExecute tr)) = m + 1
         \<and> (\<forall>res w'. processBatch env (Num m) d n i b hashes w = (res, w') \<longrightarrow>
               calls w' = calls w + nat (m + 1)
             \<and> filter isExecute (trace w')
                 = filter isExecute (trace w) @ replicate (nat (m + 1)) (Execute b))
         \<and> (disk env (writes w) = None \<and> disk env (Suc (writes w)) = None \<longrightarrow>
               (\<exists>w'. processBatch env (Num m) d n i b hashes w = (Inr hashes, w')
                  \<and> getFailedBatches w1 = getFailedBatches w
                  \<and> getFailedBatches w' = getFailedBatches w
                       @ [\<lparr>fb_batchNumber = int i + 1, fb_recipients = b, fb_error = message e\<rparr>]
                  \<and> hashesFile w' = hashesFile w
                       @ [ErrorEntry (int i + 1) (length b) (message e)]
                  \<and> trace w' = trace w1 @ (if failedBatchesFile w = Unparsable
                              then [Warn ''Could not read failed batches file, creating new one'']
                              else [])
                          @ (if i < n - 1 then [Sleep (Num 10000)] else [])))
         \<and> ((\<forall>k. disk env k = None) \<and> 1 \<le> bsz \<longrightarrow>
               (\<exists>batches w'. splitIntoBatches (Num bsz) rs = Some batches
                  \<and> processBatches env (Num bsz) (Num m) d rs w = Some (Inr [], w')
                  \<and> filter isExecute (trace w')
                      = filter isExecute (trace w)
                        @ concat (map (\<lambda>b. replicate (nat (m + 1)) (Execute b)) batches)
                  \<and> calls w' = calls w + length batches * nat (m + 1)
                  \<and> map fb_recipients (getFailedBatches w')
                      = map fb_recipients (getFailedBatches w) @ batches))"
proof -
  from attemptLoop_all_fail[OF fails m, of d b w]
  obtain e tr w1 where a: "attemptLoop env (Num m) d b 0 None w = (None, Some e, w1)"
    "w1 = w\<lparr>trace := trace w @ tr, calls := calls w + nat (m + 1)\<rparr>"
    "engineEvents tr = Execute b # concat (replicate (nat m) [Sleep d, Execute b])"
    "filter isExecute tr = replicate (nat (m + 1)) (Execute b)" by blast
  have cnt: "int (length (filter isExecute tr)) = m + 1" using a(4) m by simp
  have pb: "processBatch env (Num m) d n i b hashes w = catchBatchError env n i b hashes e w1"
    by (simp add: processBatch_def a(1))
  have any: "\<forall>res w'. processBatch env (Num m) d n i b hashes w = (res, w') \<longrightarrow>
               calls w' = calls w + nat (m + 1)
             \<and> filter isExecute (trace w')
                 = filter isExecute (trace w) @ replicate (nat (m + 1)) (Execute b)"
  proof (intro allI impI)
    fix res w'
    assume "processBatch env (Num m) d n i b hashes w = (res, w')"
    then have "catchBatchError env n i b hashes e w1 = (res, w')" by (simp add: pb)
    from catchBatchError_world[OF this] a(2,4)
    show "calls w' = calls w + nat (m + 1)
             \<and> filter isExecute (trace w')
                 = filter isExecute (trace w) @ replicate (nat (m + 1)) (Execute b)"
      by simp
  qed
  have g1: "getFailedBatches w1 = getFailedBatches w" "hashesFile w1 = hashesFile w"
    "writes w1 = writes w" "failedBatchesFile w1 = failedBatchesFile w"
    using a(2) by (simp_all add: getFailedBatches_def)
  have saved: "disk env (writes w) = None \<and> disk env (Suc (writes w)) = None \<longrightarrow>
               (\<exists>w'. processBatch env (Num m) d n i b hashes w = (Inr hashes, w')
                  \<and> getFailedBatches w1 = getFailedBatches w
                  \<and> getFailedBatches w' = getFailedBatches w
                       @ [\<lparr>fb_batchNumber = int i + 1, fb_recipients = b, fb_error = message e\<rparr>]
                  \<and> hashesFile w' = hashesFile w
                       @ [ErrorEntry (int i + 1) (length b) (message e)]
                  \<and> trace w' = trace w1 @ (if failedBatchesFile w = Unparsable
                              then [Warn ''Could not read failed batches file, creating new one'']
                              else [])
                          @ (if i < n - 1 then [Sleep (Num 10000)] else []))"
  proof
    assume d: "disk env (writes w) = None \<and> disk env (Suc (writes w)) = None"
    then have d1: "disk env (writes w1) = None" "disk env (Suc (writes w1)) = None"
      using g1(3) by simp_all
    from catchBatchError_two_writes[OF d1, of n i b hashes e] pb g1
    show "\<exists>w'. processBatch env (Num m) d n i b hashes w = (Inr hashes, w')
                  \<and> getFailedBatches w1 = getFailedBatches w
                  \<and> getFailedBatches w' = getFailedBatches w
                       @ [\<lparr>fb_batchNumber = int i + 1, fb_recipients = b, fb_error = message e\<rparr>]
                  \<and> hashesFile w' = hashesFile w
                       @ [ErrorEntry (int i + 1) (length b) (message e)]
                  \<and> trace w' = trace w1 @ (if failedBatchesFile w = Unparsable
                              then [Warn ''Could not read failed batches file, creating new one'']
                              else [])
                          @ (if i < n - 1 then [Sleep (Num 10000)] else [])"
      by auto
  qed
  have run: "(\<forall>k. disk env k = None) \<and> 1 \<le> bsz \<longrightarrow>
               (\<exists>batches w'. splitIntoBatches (Num bsz) rs = Some batches
                  \<and> processBatches env (Num bsz) (Num m) d rs w = Some (Inr [], w')
                  \<and> filter isExecute (trace w')
                      = filter isExecute (trace w)
                        @ concat (map (\<lambda>b. replicate (nat (m + 1)) (Execute b)) batches)
                  \<and> calls w' = calls w + length batches * nat (m + 1)
                  \<and> map fb_recipients (getFailedBatches w')
                      = map fb_recipients (getFailedBatches w) @ batches)"
  proof
    assume h: "(\<forall>k. disk env k = None) \<and> 1 \<le> bsz"
    from splitLoop_returns[of bsz rs 0 "[]"] h
    obtain batches where sp: "splitIntoBatches (Num bsz) rs = Some batches"
      by (auto simp: splitIntoBatches_def)
    from batchLoop_all_fail[OF fails m, of d "length batches" 0 batches "[]" w] h
    obtain w' where r: "batchLoop env (Num m) d (length batches) 0 batches [] w = (Inr [], w')"
      "filter isExecute (trace w')
         = filter isExecute (trace w) @ concat (map (\<lambda>b. replicate (nat (m + 1)) (Execute b)) batches)"
      "calls w' = calls w + length batches * nat (m + 1)"
      "map fb_recipients (getFailedBatches w') = map fb_recipients (getFailedBatches w) @ batches"
      by blast
    have "processBatches env (Num bsz) (Num m) d rs w = Some (Inr [], w')"
      by (simp add: processBatches_def sp r(1))
    with sp r(2-) show "\<exists>batches w'. splitIntoBatches (Num bsz) rs = Some batches
                  \<and> processBatches env (Num bsz) (Num m) d rs w = Some (Inr [], w')
                  \<and> filter isExecute (trace w')
                      = filter isExecute (trace w)
                        @ concat (map (\<lambda>b. replicate (nat (m + 1)) (Execute b)) batches)
                  \<and> calls w' = calls w + length batches * nat (m + 1)
                  \<and> map fb_recipients (getFailedBatches w')
                      = map fb_recipients (getFailedBatches w) @ batches"
      by blast
  qed
  show ?thesis
    using a(1,2,3) cnt any saved run by blast
qed

theorem retry_bound_witness:
  "(\<forall>rs w. \<exists>e. fst (executeMultiSend envUnreachable rs w) = Inl e) \<and> (0::int) \<le> 1
   \<and> disk envUnreachable (writes emptyWorld) = None
   \<and> disk envUnreachable (Suc (writes emptyWorld)) = None
   \<and> (\<forall>k. disk envUnreachable k = None) \<and> (1::int) \<le> 2
   \<and> (\<exists>e tr w1 w' batches w''.
          attemptLoop envUnreachable (Num 1) (Num 5000) [alice] 0 None emptyWorld = (None, Some e, w1)
        \<and> w1 = emptyWorld\<lparr>trace := trace emptyWorld @ tr, calls := calls emptyWorld + nat (1 + 1)\<rparr>
        \<and> engineEvents tr
            = Execute [alice] # concat (replicate (nat 1) [Sleep (Num 5000), Execute [alice]])
        \<and> int (length (filter isExecute tr)) = 1 + 1
        \<and> processBatch envUnreachable (Num 1) (Num 5000) 1 0 [alice] [] emptyWorld = (Inr [], w')
        \<and> calls w' = calls emptyWorld + nat (1 + 1)
        \<and> getFailedBatches w' = getFailedBatches emptyWorld
             @ [\<lparr>fb_batchNumber = int 0 + 1, fb_recipients = [alice], fb_error = message e\<rparr>]
        \<and> splitIntoBatches (Num 2) [alice, bob, carol] = Some batches
        \<and> processBatches envUnreachable (Num 2) (Num 1) (Num 5000) [alice, bob, carol] emptyWorld
            = Some (Inr [], w'')
        \<and> calls w'' = calls emptyWorld + length batches * nat (1 + 1)
        \<and> map fb_recipients (getFailedBatches w'')
            = map fb_recipients (getFailedBatches emptyWorld) @ batches)"
proof -
  have fails: "\<forall>rs w. \<exists>e. fst (executeMultiSend envUnreachable rs w) = Inl e"
    by (simp add: executeMultiSend_def envUnreachable_def unreachable_def Let_def)
  have m: "(0::int) \<le> 1" by simp
  have nofault: "\<forall>k. disk envUnreachable k = None" by (simp add: envUnreachable_def)
  have d0: "disk envUnreachable (writes emptyWorld) = None"
    and d1: "disk envUnreachable (Suc (writes emptyWorld)) = None"
    using nofault by simp_all
  have n: "(1::int) \<le> 2" by simp
  from retry_bound[OF fails m, of "Num 5000" "[alice]" emptyWorld 1 0 "[]" 2 "[alice, bob, carol]"]
  obtain e tr w1 where t:
    "attemptLoop envUnreachable (Num 1) (Num 5000) [alice] 0 None emptyWorld = (None, Some e, w1)"
    "w1 = emptyWorld\<lparr>trace := trace emptyWorld @ tr, calls := calls emptyWorld + nat (1 + 1)\<rparr>"
    "engineEvents tr
       = Execute [alice] # concat (replicate (nat 1) [Sleep (Num 5000), Execute [alice]])"
    "int (length (filter isExecute tr)) = 1 + 1"
    "\<forall>res w'. processBatch envUnreachable (Num 1) (Num 5000) 1 0 [alice] [] emptyWorld = (res, w') \<longrightarrow>
        calls w' = calls emptyWorld + nat (1 + 1)
      \<and> filter isExecute (trace w')
          = filter isExecute (trace emptyWorld) @ replicate (nat (1 + 1)) (Execute [alice])"
    "disk envUnreachable (writes emptyWorld) = None \<and> disk envUnreachable (Suc (writes emptyWorld)) = None \<longrightarrow>
       (\<exists>w'. processBatch envUnreachable (Num 1) (Num 5000) 1 0 [alice] [] emptyWorld = (Inr [], w')
          \<and> getFailedBatches w1 = getFailedBatches emptyWorld
          \<and> getFailedBatches w' = getFailedBatches emptyWorld
               @ [\<lparr>fb_batchNumber = int 0 + 1, fb_recipients = [alice], fb_error = message e\<rparr>]
          \<and> hashesFile w' = hashesFile emptyWorld
               @ [ErrorEntry (int 0 + 1) (length [alice]) (message e)]
          \<and> trace w' = trace w1 @ (if failedBatchesFile emptyWorld = Unparsable
                              then [Warn ''Could not read failed batches file, creating new one'']
                              else [])
                          @ (if (0::nat) < 1 - 1 then [Sleep (Num 10000)] else []))"
    "(\<forall>k. disk envUnreachable k = None) \<and> (1::int) \<le> 2 \<longrightarrow>
       (\<exists>batches w'. splitIntoBatches (Num 2) [alice, bob, carol] = Some batches
          \<and> processBatches envUnreachable (Num 2) (Num 1) (Num 5000) [alice, bob, carol] emptyWorld
              = Some (Inr [], w')
          \<and> filter isExecute (trace w')
              = filter isExecute (trace emptyWorld)
                @ concat (map (\<lambda>b. replicate (nat (1 + 1)) (Execute b)) batches)
          \<and> calls w' = calls emptyWorld + length batches * nat (1 + 1)
          \<and> map fb_recipients (getFailedBatches w')
              = map fb_recipients (getFailedBatches emptyWorld) @ batches)"
    by blast
  from t(6) d0 d1 obtain w' where p:
    "processBatch envUnreachable (Num 1) (Num 5000) 1 0 [alice] [] emptyWorld = (Inr [], w')"
    "getFailedBatches w' = getFailedBatches emptyWorld
       @ [\<lparr>fb_batchNumber = int 0 + 1, fb_recipients = [alice], fb_error = message e\<rparr>]"
    by blast
  from t(5) p(1) have c: "calls w' = calls emptyWorld + nat (1 + 1)" by blast
  from t(7) nofault n obtain batches w'' where r:
    "splitIntoBatches (Num 2) [alice, bob, carol] = Some batches"
    "processBatches envUnreachable (Num 2) (Num 1) (Num 5000) [alice, bob, carol] emptyWorld
       = Some (Inr [], w'')"
    "calls w'' = calls emptyWorld + length batches * nat (1 + 1)"
    "map fb_recipients (getFailedBatches w'')
       = map fb_recipients (getFailedBatches emptyWorld) @ batches"
    by blast
  have "\<exists>e tr w1 w' batches w''.
          attemptLoop envUnreachable (Num 1) (Num 5000) [alice] 0 None emptyWorld = (None, Some e, w1)
        \<and> w1 = emptyWorld\<lparr>trace := trace emptyWorld @ tr, calls := calls emptyWorld + nat (1 + 1)\<rparr>
        \<and> engineEvents tr
            = Execute [alice] # concat (replicate (nat 1) [Sleep (Num 5000), Execute [alice]])
        \<and> int (length (filter isExecute tr)) = 1 + 1
        \<and> processBatch envUnreachable (Num 1) (Num 5000) 1 0 [alice] [] emptyWorld = (Inr [], w')
        \<and> calls w' = calls emptyWorld + nat (1 + 1)
        \<and> getFailedBatches w' = getFailedBatches emptyWorld
             @ [\<lparr>fb_batchNumber = int 0 + 1, fb_recipients = [alice], fb_error = message e\<rparr>]
        \<and> splitIntoBatches (Num 2) [alice, bob, carol] = Some batches
        \<and> processBatches envUnreachable (Num 2) (Num 1) (Num 5000) [alice, bob, carol] emptyWorld
            = Some (Inr [], w'')
        \<and> calls w'' = calls emptyWorld + length batches * nat (1 + 1)
        \<and> map fb_recipients (getFailedBatches w'')
            = map fb_recipients (getFailedBatches emptyWorld) @ batches"
    using t(1-4) p c r by blast
  then show ?thesis
    using fails m d0 d1 nofault n by blast
qed

section \<open>The balance check of the Transaction Builder\<close>

text \<open>When every amount converts, the reduction is the sum of the converted amounts.\<close>

lemma reduceAmounts_sum:
  "map (\<lambda>r. big (amount r)) rs = map Inr vs \<Longrightarrow> reduceAmounts big a rs = Inr (a + sum_list vs)"
  by (induction rs arbitrary: a vs) (auto simp: add.assoc)

text \<open>
  C7. In every call of \<open>executeMultiSend\<close> (the only way either engine submits a batch)
  whose amounts and balance convert, the batch total is the integer sum of the amounts;
  when the balance is smaller than the total the call throws the error labelled
  \<open>Insufficient balance.\<close>, records no broadcast, and leaves everything but the trace and
  the call counter as it was; and a broadcast is only ever recorded when the total is at
  most the balance.
\<close>

theorem balance_check_precedes_submission:
  assumes amounts: "map (\<lambda>r. BigInt env (amount r)) rs = map Inr vs"
    and client: "signingClient (replies env (calls w)) = None"
    and sender: "senderAddress (replies env (calls w)) = Inr sender"
    and bal: "balance (replies env (calls w)) = Inr bal"
    and b: "BigInt env bal = Inr b"
  shows "(b < sum_list vs \<longrightarrow>
            executeMultiSend env rs w
              = (Inl (insufficientBalance (sum_list vs) bal),
                 w\<lparr>trace := trace w @ [Execute rs], calls := Suc (calls w)\<rparr>)
            \<and> filter isBroadcast (trace (snd (executeMultiSend env rs w)))
                = filter isBroadcast (trace w)
            \<and> take 21 (message (insufficientBalance (sum_list vs) bal)) = ''Insufficient balance.'')
       \<and> ((\<exists>tx. trace (snd (executeMultiSend env rs w)) = trace w @ [Execute rs, Broadcast sender tx])
            \<longrightarrow> sum_list vs \<le> b)"
proof -
  have total: "reduceAmounts (BigInt env) 0 rs = Inr (sum_list vs)"
    using reduceAmounts_sum[OF amounts, of 0] by simp
  show ?thesis
    using client sender bal b total
    by (cases w) (auto simp: executeMultiSend_def Let_def insufficientBalance_def split: sum.splits)
qed

theorem balance_check_precedes_submission_witness:
  "map (\<lambda>r. BigInt envSettles (amount r)) [alice, bob, dave] = map Inr [5, 7, 999]
   \<and> signingClient (replies envSettles (calls emptyWorld)) = None
   \<and> senderAddress (replies envSettles (calls emptyWorld)) = Inr ''zig1sender''
   \<and> balance (replies envSettles (calls emptyWorld)) = Inr ''1000''
   \<and> BigInt envSettles ''1000'' = Inr 1000
   \<and> (1000::int) < sum_list [5, 7, 999]
   \<and> executeMultiSend envSettles [alice, bob, dave] emptyWorld
        = (Inl (insufficientBalance (sum_list [5, 7, 999]) ''1000''),
           emptyWorld\<lparr>trace := trace emptyWorld @ [Execute [alice, bob, dave]],
                      calls := Suc (calls emptyWorld)\<rparr>)"
proof -
  have amounts: "map (\<lambda>r. BigInt envSettles (amount r)) [alice, bob, dave] = map Inr [5, 7, 999]"
    by (simp add: envSettles_def alice_def bob_def dave_def decimalBigInt_def isDigit_def digitsValue_def)
  have client: "signingClient (replies envSettles (calls emptyWorld)) = None"
    and sender: "senderAddress (replies envSettles (calls emptyWorld)) = Inr ''zig1sender''"
    and bal: "balance (replies envSettles (calls emptyWorld)) = Inr ''1000''"
    by (simp_all add: envSettles_def settles_def)
  have b: "BigInt envSettles ''1000'' = Inr 1000"
    by (simp add: envSettles_def decimalBigInt_def isDigit_def digitsValue_def)
  have less: "(1000::int) < sum_list [5, 7, 999]" by simp
  from balance_check_precedes_submission[OF amounts client sender bal b] less
  have "executeMultiSend envSettles [alice, bob, dave] emptyWorld
        = (Inl (insufficientBalance (sum_list [5, 7, 999]) ''1000''),
           emptyWorld\<lparr>trace := trace emptyWorld @ [Execute [alice, bob, dave]],
                      calls := Suc (calls emptyWorld)\<rparr>)" by blast
  with amounts client sender bal b less show ?thesis by blast
qed

section \<open>A failure store that cannot be read\<close>

text \<open>
  C10. When a failed batch is saved while \<open>failed-batches.json\<close> is present but cannot be
  read or parsed, and the write succeeds, the file is replaced by an array holding only the
  new failed batch: whatever the file held before is gone, and the only other effect is the
  warning on the console.
\<close>

theorem unparsable_store_is_overwritten:
  assumes "failedBatchesFile w = Unparsable" and "disk env (writes w) = None"
  shows "saveFailedBatch env batchNumber rs err w
         = (None, w\<lparr>failedBatchesFile :=
                      Stored [\<lparr>fb_batchNumber = batchNumber, fb_recipients = rs,
                               fb_error = message err\<rparr>],
                    trace := trace w @ [Warn ''Could not read failed batches file, creating new one''],
                    writes := Suc (writes w)\<rparr>)"
  using assms by (cases w) (simp add: saveFailedBatch_def writeFailedBatchesFile_def)

theorem unparsable_store_is_overwritten_witness:
  "failedBatchesFile worldUnparsable = Unparsable \<and> disk envUnreachable (writes worldUnparsable) = None
   \<and> saveFailedBatch envUnreachable 2 [carol] (Error ''connect ETIMEDOUT'') worldUnparsable
       = (None, worldUnparsable\<lparr>failedBatchesFile :=
                      Stored [\<lparr>fb_batchNumber = 2, fb_recipients = [carol],
                               fb_error = message (Error ''connect ETIMEDOUT'')\<rparr>],
                    trace := trace worldUnparsable @ [Warn ''Could not read failed batches file, creating new one''],
                    writes := Suc (writes worldUnparsable)\<rparr>)"
proof -
  have a: "failedBatchesFile worldUnparsable = Unparsable"
    by (simp add: worldUnparsable_def)
  have b: "disk envUnreachable (writes worldUnparsable) = None"
    by (simp add: envUnreachable_def)
  from unparsable_store_is_overwritten[OF a b, of 2 "[carol]" "Error ''connect ETIMEDOUT''"] a b
  show ?thesis by blast
qed

section \<open>A settled batch and the failure store\<close>

text \<open>A first attempt that settles ends the retry loop at once.\<close>

lemma attemptLoop_settles_first:
  "executeMultiSend env b w = (Inr h, w1) \<Longrightarrow> 0 \<le> m \<Longrightarrow>
   attemptLoop env (Num m) d b 0 None w = (Some h, None, w1)"
  by (subst attemptLoop.simps) simp

text \<open>
  C4, as the code has it. When a batch settles during \<open>processBatches\<close> and its line is
  written, the hashes file gains the line of the batch and the failure store is left as it
  was: \<open>processBatches\<close> never removes a failed batch, also not one with the number of the
  batch that just settled. Only \<open>retryBatch\<close> removes failed batches.
\<close>

theorem settled_batch_keeps_failure_store:
  assumes settled: "attemptLoop env mr d b 0 None w = (Some h, le, w1)"
    and saved: "disk env (writes w) = None"
  shows "\<exists>w2. processBatch env mr d n i b hashes w = (Inr (hashes @ [h]), w2)
           \<and> hashesFile w2 = hashesFile w @ [HashEntry (int i + 1) (length b) h False]
           \<and> failedBatchesFile w2 = failedBatchesFile w"
proof -
  from attemptLoop_world[OF settled] obtain tr where
    w1: "w1 = w\<lparr>trace := trace w @ tr, calls := calls w + length (filter isExecute tr)\<rparr>" by blast
  have same: "writes w1 = writes w" "hashesFile w1 = hashesFile w"
    "failedBatchesFile w1 = failedBatchesFile w"
    by (simp_all add: w1)
  show ?thesis
    using saved same
    by (auto simp: processBatch_def settled saveTransactionHash_def appendHashesFile_def
          sleep_def Let_def)
qed

theorem settled_batch_keeps_failure_store_witness:
  "fst (attemptLoop envSettles (Num 3) (Num 5000) [alice, bob] 0 None worldFailedOne) = Some hashA
   \<and> disk envSettles (writes worldFailedOne) = None
   \<and> (\<exists>w2. processBatch envSettles (Num 3) (Num 5000) 1 0 [alice, bob] [] worldFailedOne
               = (Inr ([] @ [hashA]), w2)
           \<and> hashesFile w2 = hashesFile worldFailedOne @ [HashEntry (int 0 + 1) (length [alice, bob]) hashA False]
           \<and> failedBatchesFile w2 = failedBatchesFile worldFailedOne)"
proof -
  have "fst (executeMultiSend envSettles [alice, bob] worldFailedOne) = Inr hashA"
    by (simp add: executeMultiSend_def envSettles_def settles_def Let_def alice_def bob_def
        decimalBigInt_def isDigit_def digitsValue_def createMultiSendTx_def)
  then obtain w1 where "executeMultiSend envSettles [alice, bob] worldFailedOne = (Inr hashA, w1)"
    by (cases "executeMultiSend envSettles [alice, bob] worldFailedOne") simp
  then have settled: "attemptLoop envSettles (Num 3) (Num 5000) [alice, bob] 0 None worldFailedOne
      = (Some hashA, None, w1)"
    by (simp add: attemptLoop_settles_first)
  have saved: "disk envSettles (writes worldFailedOne) = None" by (simp add: envSettles_def)
  from settled_batch_keeps_failure_store[OF settled saved, of 1 0 "[]"] settled saved
  show ?thesis by simp
qed

text \<open>
  The claim C4 itself fails: with a failed batch number 1 in the store, a run whose batch 1
  settles returns its hash, writes its line, and the failed batch number 1 is still stored.
\<close>

theorem settled_batch_failure_record_stays:
  "fst (the (processBatches envSettles (Num 2) (Num 3) (Num 5000) [alice, bob] worldFailedOne))
     = Inr [hashA]
   \<and> hashesFile (snd (the (processBatches envSettles (Num 2) (Num 3) (Num 5000) [alice, bob] worldFailedOne)))
     = [Header, HashEntry 1 2 hashA False]
   \<and> failedBatchesFile (snd (the (processBatches envSettles (Num 2) (Num 3) (Num 5000) [alice, bob] worldFailedOne)))
     = Stored [failedOne]"
  by code_simp

section \<open>Failed batches are persisted and the run goes on\<close>

text \<open>What a call of \<open>executeMultiSend\<close> returns depends on the state only through the call counter.\<close>

lemma executeMultiSend_fst_calls:
  "calls w = calls w' \<Longrightarrow> fst (executeMultiSend env rs w) = fst (executeMultiSend env rs w')"
  unfolding executeMultiSend_def Let_def
  by (simp split: option.splits sum.splits)

text \<open>
  When the retry loop gives up, the error it hands on is the one thrown by its last call of
  \<open>executeMultiSend\<close>, unless it made no call at all.
\<close>

lemma attemptLoop_last_error:
  "attemptLoop env mr d b k le w = (None, le', w') \<Longrightarrow>
   (le' = le \<and> w' = w)
   \<or> (\<exists>e. le' = Some e \<and> 0 < calls w'
          \<and> fst (executeMultiSend env b (w'\<lparr>calls := calls w' - 1\<rparr>)) = Inl e)"
proof (induction env mr d b k le w rule: attemptLoop.induct)
  case (1 env mr d b k le w)
  show ?case
  proof (cases "num_le (Num k) mr")
    case False
    with "1.prems" show ?thesis by (simp add: attemptLoop.simps)
  next
    case True
    let ?w1 = "if 0 < k then sleep d w else w"
    obtain res w2 where ex: "executeMultiSend env b ?w1 = (res, w2)"
      by (cases "executeMultiSend env b ?w1")
    from executeMultiSend_world[of env b ?w1] ex have c2: "calls w2 = Suc (calls ?w1)" by auto
    show ?thesis
    proof (cases res)
      case (Inr hash)
      with "1.prems" True ex show ?thesis
        by (subst (asm) attemptLoop.simps) simp
    next
      case (Inl err)
      with "1.prems" True ex
      have rec: "attemptLoop env mr d b (k + 1) (Some err) w2 = (None, le', w')"
        by (subst (asm) attemptLoop.simps) simp
      from "1.IH"[OF True refl refl ex[symmetric] Inl rec]
      show ?thesis
      proof
        assume same: "le' = Some err \<and> w' = w2"
        have "fst (executeMultiSend env b (w2\<lparr>calls := calls w2 - 1\<rparr>))
              = fst (executeMultiSend env b ?w1)"
          by (rule executeMultiSend_fst_calls) (simp add: c2)
        with same ex Inl c2 show ?thesis by simp
      next
        assume "\<exists>e. le' = Some e \<and> 0 < calls w'
          \<and> fst (executeMultiSend env b (w'\<lparr>calls := calls w' - 1\<rparr>)) = Inl e"
        then show ?thesis by blast
      qed
    qed
  qed
qed

text \<open>A failed batch that is saved is appended to what could be read of the store.\<close>

lemma getFailedBatches_saved:
  "saveFailedBatch env bn rs err w = (None, w') \<Longrightarrow>
   getFailedBatches w' = getFailedBatches w
      @ [\<lparr>fb_batchNumber = bn, fb_recipients = rs, fb_error = message err\<rparr>]
   \<and> hashesFile w' = hashesFile w"
  by (auto simp: saveFailedBatch_def writeFailedBatchesFile_def getFailedBatches_def Let_def
      split: failed_file.splits option.splits)

text \<open>With a disk that takes every write, the handler of a failed batch returns.\<close>

lemma catchBatchError_ledger:
  assumes nofault: "\<forall>k. disk env k = None"
  shows "\<exists>w'. catchBatchError env n i b hashes err w = (Inr hashes, w')
     \<and> hashesFile w' = hashesFile w @ [ErrorEntry (int i + 1) (length b) (message err)]
     \<and> getFailedBatches w' = getFailedBatches w
          @ [\<lparr>fb_batchNumber = int i + 1, fb_recipients = b, fb_error = message err\<rparr>]"
proof -
  let ?entry = "ErrorEntry (int i + 1) (length b) (message err)"
  let ?w1 = "w\<lparr>hashesFile := hashesFile w @ [?entry], writes := Suc (writes w)\<rparr>"
  have a: "appendHashesFile env ?entry w = (None, ?w1)"
    using nofault by (simp add: appendHashesFile_def)
  obtain r w2 where s: "saveFailedBatch env (int i + 1) b err ?w1 = (r, w2)"
    by (cases "saveFailedBatch env (int i + 1) b err ?w1")
  have "r = None" using s nofault
    by (auto simp: saveFailedBatch_def writeFailedBatchesFile_def Let_def split: failed_file.splits)
  with s have s': "saveFailedBatch env (int i + 1) b err ?w1 = (None, w2)" by simp
  from getFailedBatches_saved[OF s']
  have g: "getFailedBatches w2 = getFailedBatches ?w1
      @ [\<lparr>fb_batchNumber = int i + 1, fb_recipients = b, fb_error = message err\<rparr>]"
    and h: "hashesFile w2 = hashesFile ?w1" by simp_all
  have g1: "getFailedBatches ?w1 = getFailedBatches w" by (simp add: getFailedBatches_def)
  show ?thesis
    using a s' g h g1
    by (auto simp: catchBatchError_def Let_def sleep_def getFailedBatches_def)
qed

text \<open>
  What the retry loop of a batch returns, and the number of network calls it ends at, depend
  on the state only through the number of network calls made so far.
\<close>

lemma attemptLoop_calls_only:
  "attemptLoop env mr d b k le w = (h, le', w') \<Longrightarrow> calls w = calls v \<Longrightarrow>
   \<exists>v'. attemptLoop env mr d b k le v = (h, le', v') \<and> calls v' = calls w'"
proof (induction env mr d b k le w arbitrary: v rule: attemptLoop.induct)
  case (1 env mr d b k le w)
  show ?case
  proof (cases "num_le (Num k) mr")
    case False
    with "1.prems" show ?thesis by (simp add: attemptLoop.simps)
  next
    case True
    let ?w1 = "if 0 < k then sleep d w else w"
    let ?v1 = "if 0 < k then sleep d v else v"
    have c1: "calls ?w1 = calls ?v1" using "1.prems"(2) by (simp add: sleep_def)
    obtain res w2 where ex: "executeMultiSend env b ?w1 = (res, w2)"
      by (cases "executeMultiSend env b ?w1")
    obtain res' v2 where ex': "executeMultiSend env b ?v1 = (res', v2)"
      by (cases "executeMultiSend env b ?v1")
    from executeMultiSend_fst_calls[OF c1, of env b] ex ex' have same: "res' = res" by simp
    from executeMultiSend_world[of env b ?w1] ex have cw: "calls w2 = Suc (calls ?w1)" by auto
    from executeMultiSend_world[of env b ?v1] ex' have cv: "calls v2 = Suc (calls ?v1)" by auto
    have c2: "calls w2 = calls v2" using cw cv c1 by simp
    show ?thesis
    proof (cases res)
      case (Inr hash)
      with "1.prems"(1) True ex have "h = Some hash" "le' = le" "w' = w2"
        by (subst (asm) attemptLoop.simps, simp)+
      moreover have "attemptLoop env mr d b k le v = (Some hash, le, v2)"
        using True ex' same Inr by (subst attemptLoop.simps) simp
      ultimately show ?thesis using c2 by simp
    next
      case (Inl err)
      with "1.prems"(1) True ex
      have rec: "attemptLoop env mr d b (k + 1) (Some err) w2 = (h, le', w')"
        by (subst (asm) attemptLoop.simps) simp
      from "1.IH"[OF True refl refl ex[symmetric] Inl rec c2]
      obtain v' where "attemptLoop env mr d b (k + 1) (Some err) v2 = (h, le', v')"
        "calls v' = calls w'" by blast
      moreover have "attemptLoop env mr d b k le v = attemptLoop env mr d b (k + 1) (Some err) v2"
        using True ex' same Inl by (subst attemptLoop.simps) simp
      ultimately show ?thesis by simp
    qed
  qed
qed

text \<open>
  With a disk that accepts every write, the body of the loop returns normally: it appends
  the hash the retry loop obtained, if any, writes the line that goes with the outcome and,
  for a batch without a hash, the failed batch.
\<close>

lemma processBatch_outcome:
  assumes nofault: "\<forall>k. disk env k = None"
    and al: "attemptLoop env mr d b 0 None w = (h, le, w1)"
  shows "\<exists>w'. processBatch env mr d n i b hashes w
               = (Inr (hashes @ (case h of Some x \<Rightarrow> [x] | None \<Rightarrow> [])), w')
     \<and> hashesFile w' = hashesFile w @ [ledgerLine (i, b, (h, le))]
     \<and> getFailedBatches w' = getFailedBatches w @ failureOf (b, ledgerLine (i, b, (h, le)))
     \<and> calls w' = calls w1"
proof -
  from attemptLoop_world[OF al] obtain tr where
    w1: "w1 = w\<lparr>trace := trace w @ tr, calls := calls w + length (filter isExecute tr)\<rparr>" by blast
  have same: "hashesFile w1 = hashesFile w" "getFailedBatches w1 = getFailedBatches w"
    by (simp_all add: w1 getFailedBatches_def)
  show ?thesis
  proof (cases h)
    case None
    from catchBatchError_ledger[OF nofault, of n i b hashes "thrownError le" w1]
    obtain w' where c: "catchBatchError env n i b hashes (thrownError le) w1 = (Inr hashes, w')"
      "hashesFile w' = hashesFile w1 @ [ErrorEntry (int i + 1) (length b) (message (thrownError le))]"
      "getFailedBatches w' = getFailedBatches w1
          @ [\<lparr>fb_batchNumber = int i + 1, fb_recipients = b, fb_error = message (thrownError le)\<rparr>]"
      by blast
    have "processBatch env mr d n i b hashes w = (Inr hashes, w')"
      using c(1) by (simp add: processBatch_def al None thrownError_def)
    moreover have "calls w' = calls w1" using catchBatchError_world[OF c(1)] by simp
    ultimately show ?thesis
      using c(2,3) same None by (intro exI[of _ w']) simp
  next
    case (Some hash)
    let ?entry = "HashEntry (int i + 1) (length b) hash False"
    let ?w2 = "w1\<lparr>hashesFile := hashesFile w1 @ [?entry], writes := Suc (writes w1)\<rparr>"
    have sv: "saveTransactionHash env (int i + 1) hash (length b) w1 = (None, ?w2)"
      using nofault by (simp add: saveTransactionHash_def appendHashesFile_def)
    let ?w' = "if i < n - 1 then sleep (Num 3000) ?w2 else ?w2"
    have "processBatch env mr d n i b hashes w = (Inr (hashes @ [hash]), ?w')"
      using sv by (simp add: processBatch_def al Some)
    moreover have "hashesFile ?w' = hashesFile w @ [?entry]"
      using same by (simp add: sleep_def)
    moreover have "getFailedBatches ?w' = getFailedBatches w"
      using same by (simp add: sleep_def getFailedBatches_def)
    moreover have "calls ?w' = calls w1" by (simp add: sleep_def)
    ultimately show ?thesis
      using Some by (intro exI[of _ ?w']) simp
  qed
qed

text \<open>
  The loop over the batches with such a disk, by induction on the batches left.
\<close>

lemma batchLoop_outcomes:
  assumes nofault: "\<forall>k. disk env k = None"
  shows "\<exists>w'. batchLoop env mr d n i bs hashes w
               = (Inr (hashes @ List.map_filter fst (outcomes env mr d bs (calls w))), w')
     \<and> length (outcomes env mr d bs (calls w)) = length bs
     \<and> hashesFile w' = hashesFile w
          @ map ledgerLine (zip [i..<i + length bs] (zip bs (outcomes env mr d bs (calls w))))
     \<and> getFailedBatches w' = getFailedBatches w
          @ concat (map failureOf (zip bs
              (map ledgerLine (zip [i..<i + length bs] (zip bs (outcomes env mr d bs (calls w)))))))"
proof (induction bs arbitrary: i hashes w)
  case Nil
  show ?case by (simp add: map_filter_simps)
next
  case (Cons b bs)
  obtain h le w1 where al: "attemptLoop env mr d b 0 None w = (h, le, w1)"
    by (cases "attemptLoop env mr d b 0 None w")
  have "calls w = calls (atCall (calls w))" by (simp add: atCall_def)
  from attemptLoop_calls_only[OF al this]
  obtain v' where probe: "attemptLoop env mr d b 0 None (atCall (calls w)) = (h, le, v')"
    "calls v' = calls w1" by blast
  have os: "outcomes env mr d (b # bs) (calls w) = (h, le) # outcomes env mr d bs (calls w1)"
    using probe by simp
  from processBatch_outcome[OF nofault al, of n i hashes]
  obtain w2 where p: "processBatch env mr d n i b hashes w
               = (Inr (hashes @ (case h of Some x \<Rightarrow> [x] | None \<Rightarrow> [])), w2)"
    "hashesFile w2 = hashesFile w @ [ledgerLine (i, b, (h, le))]"
    "getFailedBatches w2 = getFailedBatches w @ failureOf (b, ledgerLine (i, b, (h, le)))"
    "calls w2 = calls w1" by blast
  let ?os = "outcomes env mr d bs (calls w1)"
  from Cons.IH[of "Suc i" "hashes @ (case h of Some x \<Rightarrow> [x] | None \<Rightarrow> [])" w2] p(4)
  obtain w' where r: "batchLoop env mr d n (Suc i) bs (hashes @ (case h of Some x \<Rightarrow> [x] | None \<Rightarrow> [])) w2
               = (Inr ((hashes @ (case h of Some x \<Rightarrow> [x] | None \<Rightarrow> [])) @ List.map_filter fst ?os), w')"
    "length ?os = length bs"
    "hashesFile w' = hashesFile w2
          @ map ledgerLine (zip [Suc i..<Suc i + length bs] (zip bs ?os))"
    "getFailedBatches w' = getFailedBatches w2
          @ concat (map failureOf (zip bs
              (map ledgerLine (zip [Suc i..<Suc i + length bs] (zip bs ?os)))))"
    by auto
  have "i < i + length (b # bs)" by simp
  then have "[i..<i + length (b # bs)] = i # [Suc i..<i + length (b # bs)]"
    by (rule upt_conv_Cons)
  then have up: "[i..<i + length (b # bs)] = i # [Suc i..<Suc i + length bs]" by simp
  have mf: "List.map_filter fst ((h, le) # ?os)
            = (case h of Some x \<Rightarrow> [x] | None \<Rightarrow> []) @ List.map_filter fst ?os"
    by (cases h) (simp_all add: map_filter_simps)
  show ?case
    apply (intro exI[of _ w'])
    apply (simp only: os up mf)
    using p r apply simp
    done
qed

text \<open>
  C3. With a disk that accepts every write and a batch size of at least one,
  \<open>processBatches\<close> returns, and its hash list is exactly the hashes that the retry loops
  of the batches obtained, in the order of the batches. The hashes file gets one line for
  each batch, in order: the line of the hash for a batch whose retry loop obtained one, an
  error line otherwise; the failure store gets, in order, one failed batch for each batch
  whose retry loop obtained none. For one batch: when its retry loop ends without a hash,
  the failed batch written holds the batch number, the recipients of the batch as they are
  and the message of the last error caught, which is the error of the last call; the hash
  list is unchanged and the loop goes on with the next batch. When its retry loop obtains
  a hash, that hash is appended to the hash list, its line is written, the failure store
  is unchanged and the loop goes on with the next batch.
\<close>

theorem failure_persistence_and_continuation:
  assumes nofault: "\<forall>k. disk env k = None" and n: "1 \<le> n"
  shows "(\<exists>batches w'.
            splitIntoBatches (Num n) rs = Some batches
          \<and> length (outcomes env mr d batches (calls w)) = length batches
          \<and> processBatches env (Num n) mr d rs w
              = Some (Inr (List.map_filter fst (outcomes env mr d batches (calls w))), w')
          \<and> hashesFile w' = hashesFile w
              @ map ledgerLine
                  (zip [0..<length batches] (zip batches (outcomes env mr d batches (calls w))))
          \<and> getFailedBatches w' = getFailedBatches w
              @ concat (map failureOf (zip batches
                  (map ledgerLine
                     (zip [0..<length batches]
                        (zip batches (outcomes env mr d batches (calls w))))))))
       \<and> (attemptLoop env mr d b 0 None w = (None, le, w1) \<longrightarrow>
            (\<exists>w2. processBatch env mr d k i b hs w = (Inr hs, w2)
                \<and> getFailedBatches w2 = getFailedBatches w
                     @ [\<lparr>fb_batchNumber = int i + 1, fb_recipients = b,
                         fb_error = message (case le of Some e \<Rightarrow> e
                                             | None \<Rightarrow> Error ''All retry attempts failed'')\<rparr>]
                \<and> batchLoop env mr d k i (b # bs) hs w = batchLoop env mr d k (Suc i) bs hs w2)
            \<and> (\<forall>e. le = Some e \<longrightarrow>
                  fst (executeMultiSend env b (w1\<lparr>calls := calls w1 - 1\<rparr>)) = Inl e))
       \<and> (attemptLoop env mr d b 0 None w = (Some h, le, w1) \<longrightarrow>
            (\<exists>w2. processBatch env mr d k i b hs w = (Inr (hs @ [h]), w2)
                \<and> hashesFile w2 = hashesFile w @ [HashEntry (int i + 1) (length b) h False]
                \<and> getFailedBatches w2 = getFailedBatches w
                \<and> batchLoop env mr d k i (b # bs) hs w
                     = batchLoop env mr d k (Suc i) bs (hs @ [h]) w2))"
proof (intro conjI impI)
  from splitLoop_returns[OF n, of rs 0 "[]"]
  obtain batches where sp: "splitIntoBatches (Num n) rs = Some batches"
    by (auto simp: splitIntoBatches_def)
  let ?os = "outcomes env mr d batches (calls w)"
  from batchLoop_outcomes[OF nofault, of mr d "length batches" 0 batches "[]" w]
  obtain w' where r:
    "batchLoop env mr d (length batches) 0 batches [] w = (Inr (List.map_filter fst ?os), w')"
    "length ?os = length batches"
    "hashesFile w' = hashesFile w @ map ledgerLine (zip [0..<length batches] (zip batches ?os))"
    "getFailedBatches w' = getFailedBatches w
       @ concat (map failureOf (zip batches
           (map ledgerLine (zip [0..<length batches] (zip batches ?os)))))"
    by auto
  have "processBatches env (Num n) mr d rs w = Some (Inr (List.map_filter fst ?os), w')"
    by (simp add: processBatches_def sp r(1))
  with sp r(2-)
  show "\<exists>batches w'.
            splitIntoBatches (Num n) rs = Some batches
          \<and> length (outcomes env mr d batches (calls w)) = length batches
          \<and> processBatches env (Num n) mr d rs w
              = Some (Inr (List.map_filter fst (outcomes env mr d batches (calls w))), w')
          \<and> hashesFile w' = hashesFile w
              @ map ledgerLine
                  (zip [0..<length batches] (zip batches (outcomes env mr d batches (calls w))))
          \<and> getFailedBatches w' = getFailedBatches w
              @ concat (map failureOf (zip batches
                  (map ledgerLine
                     (zip [0..<length batches]
                        (zip batches (outcomes env mr d batches (calls w)))))))"
    by blast
next
  assume exhausted: "attemptLoop env mr d b 0 None w = (None, le, w1)"
  from processBatch_outcome[OF nofault exhausted, of k i hs]
  obtain w2 where p: "processBatch env mr d k i b hs w = (Inr hs, w2)"
    "getFailedBatches w2 = getFailedBatches w
        @ [\<lparr>fb_batchNumber = int i + 1, fb_recipients = b, fb_error = message (thrownError le)\<rparr>]"
    by auto
  then have "batchLoop env mr d k i (b # bs) hs w = batchLoop env mr d k (Suc i) bs hs w2"
    by simp
  with p
  show "\<exists>w2. processBatch env mr d k i b hs w = (Inr hs, w2)
                \<and> getFailedBatches w2 = getFailedBatches w
                     @ [\<lparr>fb_batchNumber = int i + 1, fb_recipients = b,
                         fb_error = message (case le of Some e \<Rightarrow> e
                                             | None \<Rightarrow> Error ''All retry attempts failed'')\<rparr>]
                \<and> batchLoop env mr d k i (b # bs) hs w = batchLoop env mr d k (Suc i) bs hs w2"
    by (auto simp: thrownError_def)
next
  assume exhausted: "attemptLoop env mr d b 0 None w = (None, le, w1)"
  from attemptLoop_last_error[OF exhausted]
  show "\<forall>e. le = Some e \<longrightarrow> fst (executeMultiSend env b (w1\<lparr>calls := calls w1 - 1\<rparr>)) = Inl e"
    by auto
next
  assume settled: "attemptLoop env mr d b 0 None w = (Some h, le, w1)"
  from processBatch_outcome[OF nofault settled, of k i hs]
  obtain w2 where p: "processBatch env mr d k i b hs w = (Inr (hs @ [h]), w2)"
    "hashesFile w2 = hashesFile w @ [HashEntry (int i + 1) (length b) h False]"
    "getFailedBatches w2 = getFailedBatches w"
    by auto
  then have "batchLoop env mr d k i (b # bs) hs w = batchLoop env mr d k (Suc i) bs (hs @ [h]) w2"
    by simp
  with p
  show "\<exists>w2. processBatch env mr d k i b hs w = (Inr (hs @ [h]), w2)
                \<and> hashesFile w2 = hashesFile w @ [HashEntry (int i + 1) (length b) h False]
                \<and> getFailedBatches w2 = getFailedBatches w
                \<and> batchLoop env mr d k i (b # bs) hs w
                     = batchLoop env mr d k (Suc i) bs (hs @ [h]) w2"
    by blast
qed

theorem failure_persistence_and_continuation_witness:
  "(\<forall>k. disk envFirstCallFails k = None) \<and> (1::int) \<le> 2
   \<and> fst (attemptLoop envFirstCallFails (Num 0) (Num 5000) [alice, bob] 0 None emptyWorld) = None
   \<and> fst (attemptLoop envFirstCallFails (Num 0) (Num 5000) [carol] 0 None
             (emptyWorld\<lparr>calls := 1\<rparr>)) = Some hashA
   \<and> (\<exists>w'. processBatches envFirstCallFails (Num 2) (Num 0) (Num 5000) [alice, bob, carol] emptyWorld
              = Some (Inr [hashA], w')
          \<and> hashesFile w'
              = [Header, ErrorEntry 1 2 ''connect ETIMEDOUT'', HashEntry 2 1 hashA False]
          \<and> getFailedBatches w'
              = [\<lparr>fb_batchNumber = 1, fb_recipients = [alice, bob],
                  fb_error = ''connect ETIMEDOUT''\<rparr>])
   \<and> (\<exists>w2. processBatch envFirstCallFails (Num 0) (Num 5000) 2 0 [alice, bob] [] emptyWorld
              = (Inr [], w2)
          \<and> batchLoop envFirstCallFails (Num 0) (Num 5000) 2 0 ([alice, bob] # [[carol]]) [] emptyWorld
              = batchLoop envFirstCallFails (Num 0) (Num 5000) 2 (Suc 0) [[carol]] [] w2)
   \<and> (\<exists>w2. processBatch envFirstCallFails (Num 0) (Num 5000) 2 1 [carol] [] (emptyWorld\<lparr>calls := 1\<rparr>)
              = (Inr ([] @ [hashA]), w2)
          \<and> hashesFile w2 = hashesFile (emptyWorld\<lparr>calls := 1\<rparr>)
               @ [HashEntry (int 1 + 1) (length [carol]) hashA False]
          \<and> getFailedBatches w2 = getFailedBatches (emptyWorld\<lparr>calls := 1\<rparr>))"
proof -
  let ?X = "attemptLoop envFirstCallFails (Num 0) (Num 5000) [alice, bob] 0 None emptyWorld"
  let ?v = "emptyWorld\<lparr>calls := 1\<rparr>"
  let ?Y = "attemptLoop envFirstCallFails (Num 0) (Num 5000) [carol] 0 None ?v"
  have nofault: "\<forall>k. disk envFirstCallFails k = None" by (simp add: envFirstCallFails_def)
  have n: "(1::int) \<le> 2" by simp
  have none: "fst ?X = None" by code_simp
  then have exhausted: "?X = (None, fst (snd ?X), snd (snd ?X))" by (simp add: prod_eq_iff)
  have some: "fst ?Y = Some hashA" by code_simp
  then have settled: "?Y = (Some hashA, fst (snd ?Y), snd (snd ?Y))" by (simp add: prod_eq_iff)
  have sp: "splitIntoBatches (Num 2) [alice, bob, carol] = Some [[alice, bob], [carol]]"
    by code_simp
  have os: "outcomes envFirstCallFails (Num 0) (Num 5000) [[alice, bob], [carol]] (calls emptyWorld)
            = [(None, Some (Error ''connect ETIMEDOUT'')), (Some hashA, None)]"
    by code_simp
  have up: "[0..<length [[alice, bob], [carol]]] = [0, 1]" by (simp add: upt_rec)
  have start: "hashesFile emptyWorld = [Header]" "getFailedBatches emptyWorld = []"
    by (simp_all add: emptyWorld_def getFailedBatches_def)
  note run = failure_persistence_and_continuation[OF nofault n,
      where rs = "[alice, bob, carol]" and mr = "Num 0" and d = "Num 5000" and w = emptyWorld
        and b = "[alice, bob]" and le = "fst (snd ?X)" and ?w1.0 = "snd (snd ?X)"
        and k = 2 and i = 0 and hs = "[]" and bs = "[[carol]]"]
  from run[THEN conjunct1] sp
  obtain w' where r:
    "processBatches envFirstCallFails (Num 2) (Num 0) (Num 5000) [alice, bob, carol] emptyWorld
       = Some (Inr (List.map_filter fst
            (outcomes envFirstCallFails (Num 0) (Num 5000) [[alice, bob], [carol]] (calls emptyWorld))), w')"
    "hashesFile w' = hashesFile emptyWorld
       @ map ledgerLine (zip [0..<length [[alice, bob], [carol]]]
           (zip [[alice, bob], [carol]]
              (outcomes envFirstCallFails (Num 0) (Num 5000) [[alice, bob], [carol]] (calls emptyWorld))))"
    "getFailedBatches w' = getFailedBatches emptyWorld
       @ concat (map failureOf (zip [[alice, bob], [carol]]
           (map ledgerLine (zip [0..<length [[alice, bob], [carol]]]
              (zip [[alice, bob], [carol]]
                 (outcomes envFirstCallFails (Num 0) (Num 5000) [[alice, bob], [carol]]
                    (calls emptyWorld)))))))"
    by auto
  have whole: "\<exists>w'. processBatches envFirstCallFails (Num 2) (Num 0) (Num 5000) [alice, bob, carol] emptyWorld
              = Some (Inr [hashA], w')
          \<and> hashesFile w'
              = [Header, ErrorEntry 1 2 ''connect ETIMEDOUT'', HashEntry 2 1 hashA False]
          \<and> getFailedBatches w'
              = [\<lparr>fb_batchNumber = 1, fb_recipients = [alice, bob],
                  fb_error = ''connect ETIMEDOUT''\<rparr>]"
    using r unfolding os up start
    by (intro exI[of _ w']) (simp add: map_filter_simps thrownError_def)
  from run[THEN conjunct2, THEN conjunct1, THEN mp, OF exhausted, THEN conjunct1]
  obtain w2 where
    "processBatch envFirstCallFails (Num 0) (Num 5000) 2 0 [alice, bob] [] emptyWorld = (Inr [], w2)"
    "batchLoop envFirstCallFails (Num 0) (Num 5000) 2 0 ([alice, bob] # [[carol]]) [] emptyWorld
       = batchLoop envFirstCallFails (Num 0) (Num 5000) 2 (Suc 0) [[carol]] [] w2"
    by blast
  then have one: "\<exists>w2. processBatch envFirstCallFails (Num 0) (Num 5000) 2 0 [alice, bob] [] emptyWorld
              = (Inr [], w2)
          \<and> batchLoop envFirstCallFails (Num 0) (Num 5000) 2 0 ([alice, bob] # [[carol]]) [] emptyWorld
              = batchLoop envFirstCallFails (Num 0) (Num 5000) 2 (Suc 0) [[carol]] [] w2"
    by blast
  note run2 = failure_persistence_and_continuation[OF nofault n,
      where mr = "Num 0" and d = "Num 5000" and w = ?v
        and b = "[carol]" and h = hashA and le = "fst (snd ?Y)" and ?w1.0 = "snd (snd ?Y)"
        and k = 2 and i = 1 and hs = "[]" and bs = "[]"]
  from run2[THEN conjunct2, THEN conjunct2, THEN mp, OF settled]
  have two: "\<exists>w2. processBatch envFirstCallFails (Num 0) (Num 5000) 2 1 [carol] [] ?v
              = (Inr ([] @ [hashA]), w2)
          \<and> hashesFile w2 = hashesFile ?v @ [HashEntry (int 1 + 1) (length [carol]) hashA False]
          \<and> getFailedBatches w2 = getFailedBatches ?v"
    by blast
  show ?thesis
    by (intro conjI nofault n none some whole one two)
qed

section \<open>Errors of the ledger writes\<close>


text \<open>
  A run that is not a resume, asks for no help, passes the checks of \<open>main\<close> and has reset
  the hashes file ends as \<open>processBatches\<close> ends.
\<close>

lemma main_dispatches:
  assumes "\<not> retry (parseArgs argv)" and "\<not> helpRequested argv" and "validateConfig st"
    and "startAddress st = Inr a" and "startBalance st = Inr bal"
    and "csvRecipients st = Inr R" and "R \<noteq> []"
    and "disk env (writes w) = None" and "reduceAmounts (BigInt env) 0 R = Inr t"
  shows "main env st argv w =
     (case processBatches env (batchSize (parseArgs argv)) (maxRetries (parseArgs argv))
             (retryDelay (parseArgs argv)) R
             (w\<lparr>hashesFile := [Header], writes := Suc (writes w)\<rparr>) of
        None \<Rightarrow> (case arrayFull st of None \<Rightarrow> (Abort, w\<lparr>hashesFile := [Header], writes := Suc (writes w)\<rparr>)
                  | Some e \<Rightarrow> (Exit 1, w\<lparr>hashesFile := [Header], writes := Suc (writes w)\<rparr>))
      | Some (Inl e, w2) \<Rightarrow> (Exit 1, w2)
      | Some (Inr hashes, w2) \<Rightarrow> (Exit 0, w2))"
  using assms by (simp add: main_def Let_def newBatchProcessor_def)





section \<open>Resuming a failed batch\<close>

text \<open>Saving a hash and removing a failed batch leave the trace and the call counter alone.\<close>

lemma retrier_save_world:
  "retrier_saveTransactionHash env bn h c w = (r, w') \<Longrightarrow>
   failedBatchesFile w' = failedBatchesFile w \<and> trace w' = trace w \<and> calls w' = calls w"
  by (auto simp: retrier_saveTransactionHash_def appendHashesFile_def split: option.splits)

lemma removeFromFailedBatches_world:
  "trace (removeFromFailedBatches env bn w) = trace w
   \<and> calls (removeFromFailedBatches env bn w) = calls w"
  by (auto simp: removeFromFailedBatches_def writeFailedBatchesFile_def
      split: failed_file.splits option.splits)

text \<open>On a stored array, the removal makes one write; when it succeeds the number is gone.\<close>

lemma removeFromFailedBatches_stored:
  "failedBatchesFile w = Stored fbs \<Longrightarrow>
   writes (removeFromFailedBatches env bn w) = Suc (writes w)
   \<and> (disk env (writes w) = None \<longrightarrow>
        failedBatchesFile (removeFromFailedBatches env bn w)
          = Stored (filter (\<lambda>batch. fb_batchNumber batch \<noteq> bn) fbs))"
  by (auto simp: removeFromFailedBatches_def writeFailedBatchesFile_def split: option.splits)

text \<open>
  A resume that succeeds ends with the write of the removal: if that write went through,
  no stored batch has the resumed number any more.
\<close>

lemma retryLoop_success:
  "retryLoop env mr bn fb k w = (True, w') \<Longrightarrow> failedBatchesFile w = Stored fbs \<Longrightarrow>
   0 < writes w' \<and> (disk env (writes w' - 1) = None \<longrightarrow>
      failedBatchesFile w' = Stored (filter (\<lambda>batch. fb_batchNumber batch \<noteq> bn) fbs))"
proof (induction env mr bn fb k w rule: retryLoop.induct)
  case (1 env mr bn fb k w)
  show ?case
  proof (cases "num_lt (Num k) mr")
    case False
    with "1.prems" show ?thesis by (simp add: retryLoop.simps)
  next
    case True
    obtain res w1 where ex: "executeMultiSend env (fb_recipients fb) w = (res, w1)"
      by (cases "executeMultiSend env (fb_recipients fb) w")
    from executeMultiSend_world[of env "fb_recipients fb" w] ex
    have f1: "failedBatchesFile w1 = failedBatchesFile w" by auto
    let ?next = "\<lambda>w2. if num_lt (Num (k + 1)) mr then sleep (Num 10000) w2 else w2"
    have fnext: "\<And>w2. failedBatchesFile (?next w2) = failedBatchesFile w2"
      by (simp add: sleep_def)
    let ?body = "case res of Inl err \<Rightarrow> (True, w1)
          | Inr hash \<Rightarrow>
              (case retrier_saveTransactionHash env bn hash (length (fb_recipients fb)) w1 of
                 (None, w') \<Rightarrow> (False, removeFromFailedBatches env bn w')
               | (Some e, w') \<Rightarrow> (True, w'))"
    show ?thesis
    proof (cases res)
      case (Inl err)
      with "1.prems"(1) True ex
      have rec: "retryLoop env mr bn fb (k + 1) (?next w1) = (True, w')"
        by (subst (asm) retryLoop.simps) simp
      have st: "failedBatchesFile (?next w1) = Stored fbs"
        using f1 "1.prems"(2) by (simp add: sleep_def)
      have xb: "(True, w1) = ?body" using Inl by simp
      from "1.IH"[OF True refl ex[symmetric] refl xb TrueI rec st]
      show ?thesis .
    next
      case (Inr hash)
      obtain r w2 where sv: "retrier_saveTransactionHash env bn hash (length (fb_recipients fb)) w1 = (r, w2)"
        by (cases "retrier_saveTransactionHash env bn hash (length (fb_recipients fb)) w1")
      from retrier_save_world[OF sv] f1 "1.prems"(2)
      have f2: "failedBatchesFile w2 = Stored fbs" by simp
      show ?thesis
      proof (cases r)
        case None
        with "1.prems"(1) True ex Inr sv
        have "w' = removeFromFailedBatches env bn w2"
          by (subst (asm) retryLoop.simps) simp
        with removeFromFailedBatches_stored[OF f2, of env bn] show ?thesis by simp
      next
        case (Some e)
        with "1.prems"(1) True ex Inr sv
        have rec: "retryLoop env mr bn fb (k + 1) (?next w2) = (True, w')"
          by (subst (asm) retryLoop.simps) simp
        have st: "failedBatchesFile (?next w2) = Stored fbs"
          using f2 by (simp add: sleep_def)
        have xb: "(True, w2) = ?body" using Inr sv Some by simp
        from "1.IH"[OF True refl ex[symmetric] refl xb TrueI rec st]
        show ?thesis .
      qed
    qed
  qed
qed

text \<open>
  C5. Resuming a batch number that no stored failed batch has returns \<open>false\<close> and changes
  nothing: no file, no network call, no event. And when a resume of a number succeeds and
  its removal was written, a second resume of that number, with any retry bound, returns
  \<open>false\<close> and changes nothing: the funds are not sent again.
\<close>

theorem resume_not_found_and_idempotent:
  "(find (\<lambda>batch. fb_batchNumber batch = bn) (getFailedBatches w) = None \<longrightarrow>
      retryBatch env bn mr w = (False, w))
   \<and> (retryBatch env bn mr w = (True, w1) \<and> disk env (writes w1 - 1) = None \<longrightarrow>
      retryBatch env bn mr' w1 = (False, w1))"
proof (intro conjI impI)
  assume "find (\<lambda>batch. fb_batchNumber batch = bn) (getFailedBatches w) = None"
  then show "retryBatch env bn mr w = (False, w)" by (simp add: retryBatch_def)
next
  assume a: "retryBatch env bn mr w = (True, w1) \<and> disk env (writes w1 - 1) = None"
  then obtain fb where fb: "find (\<lambda>batch. fb_batchNumber batch = bn) (getFailedBatches w) = Some fb"
    and loop: "retryLoop env mr bn fb 0 w = (True, w1)"
    by (auto simp: retryBatch_def split: option.splits)
  from fb obtain fbs where st: "failedBatchesFile w = Stored fbs"
    by (auto simp: getFailedBatches_def split: failed_file.splits)
  from retryLoop_success[OF loop st] a
  have "failedBatchesFile w1 = Stored (filter (\<lambda>batch. fb_batchNumber batch \<noteq> bn) fbs)"
    by simp
  then have "find (\<lambda>batch. fb_batchNumber batch = bn) (getFailedBatches w1) = None"
    by (simp add: getFailedBatches_def find_None_iff)
  then show "retryBatch env bn mr' w1 = (False, w1)" by (simp add: retryBatch_def)
qed

theorem resume_not_found_and_idempotent_witness:
  "find (\<lambda>batch. fb_batchNumber batch = 2) (getFailedBatches worldFailedOne) = None
   \<and> retryBatch envSettles 2 (Num 3) worldFailedOne = (False, worldFailedOne)
   \<and> fst (retryBatch envSettles 1 (Num 3) worldFailedOne) = True
   \<and> disk envSettles (writes (snd (retryBatch envSettles 1 (Num 3) worldFailedOne)) - 1) = None
   \<and> retryBatch envSettles 1 (Num 3) (snd (retryBatch envSettles 1 (Num 3) worldFailedOne))
        = (False, snd (retryBatch envSettles 1 (Num 3) worldFailedOne))"
proof -
  let ?X = "retryBatch envSettles 1 (Num 3) worldFailedOne"
  have absent: "find (\<lambda>batch. fb_batchNumber batch = 2) (getFailedBatches worldFailedOne) = None"
    by (simp add: getFailedBatches_def worldFailedOne_def failedOne_def)
  have first: "fst ?X = True" by code_simp
  then have first': "?X = (True, snd ?X)" by (simp add: prod_eq_iff)
  have removed: "disk envSettles (writes (snd ?X) - 1) = None" by (simp add: envSettles_def)
  note a = resume_not_found_and_idempotent[where bn = 2 and w = worldFailedOne and env = envSettles
      and mr = "Num 3", THEN conjunct1,
      THEN mp, OF absent]
  note b = resume_not_found_and_idempotent[where bn = 1 and w = worldFailedOne and env = envSettles
      and mr = "Num 3" and ?w1.0 = "snd ?X" and mr' = "Num 3",
      THEN conjunct2, THEN mp, OF conjI[OF first' removed]]
  show ?thesis by (intro conjI absent a first removed b)
qed

section \<open>The attempts of a resume\<close>

text \<open>
  Against a network that fails every call, the loop of \<open>retryBatch\<close> entered at retry count
  \<open>k\<close> makes \<open>maxRetries - k\<close> attempts (none when that is not positive), ten seconds apart,
  and writes nothing.
\<close>

lemma retryLoop_exhausts:
  assumes fails: "\<forall>rs w. \<exists>e. fst (executeMultiSend env rs w) = Inl e"
  shows "0 \<le> k \<Longrightarrow>
     \<exists>tr. retryLoop env mr bn fb k w
            = (False, w\<lparr>trace := trace w @ tr, calls := calls w + nat (toInteger mr - k)\<rparr>)
        \<and> engineEvents tr
            = attemptsWithDelay (Num 10000) (fb_recipients fb) (nat (toInteger mr - k))"
proof (induction "nat (toInteger mr - k)" arbitrary: k w)
  case 0
  then have "\<not> num_lt (Num k) mr" by (cases mr) auto
  then have "retryLoop env mr bn fb k w = (False, w)" by (subst retryLoop.simps) simp
  with 0 show ?case by (intro exI[of _ "[]"]) (simp add: engineEvents_def)
next
  case (Suc j)
  then obtain m where mr: "mr = Num m" and km: "k < m" by (cases mr) auto
  have j: "j = nat (toInteger mr - (k + 1))" using Suc.hyps(2) by simp
  have cnt: "nat (toInteger mr - k) = Suc j" using Suc.hyps(2) by simp
  from fails obtain e1 where "fst (executeMultiSend env (fb_recipients fb) w) = Inl e1" by blast
  then obtain w1 where ex: "executeMultiSend env (fb_recipients fb) w = (Inl e1, w1)"
    by (cases "executeMultiSend env (fb_recipients fb) w") simp
  from executeMultiSend_world[of env "fb_recipients fb" w] ex obtain bc where
    w1: "w1 = w\<lparr>trace := trace w @ Execute (fb_recipients fb) # bc, calls := Suc (calls w)\<rparr>"
    and bc: "list_all isBroadcast bc" by auto
  let ?next = "if num_lt (Num (k + 1)) mr then sleep (Num 10000) w1 else w1"
  have step: "retryLoop env mr bn fb k w = retryLoop env mr bn fb (k + 1) ?next"
    using km mr ex by (subst retryLoop.simps) simp
  from Suc.hyps(1)[OF j, of ?next] Suc.prems
  obtain tr where r: "retryLoop env mr bn fb (k + 1) ?next
            = (False, ?next\<lparr>trace := trace ?next @ tr, calls := calls ?next + j\<rparr>)"
    "engineEvents tr = attemptsWithDelay (Num 10000) (fb_recipients fb) j"
    using j by auto
  show ?case
  proof (cases "k + 1 < m")
    case True
    then have "0 < j" using j mr by simp
    then obtain j' where j': "j = Suc j'" by (cases j) simp_all
    show ?thesis
      apply (intro exI[of _ "Execute (fb_recipients fb) # bc @ Sleep (Num 10000) # tr"])
      using step r True w1 j' cnt no_broadcast_kept[OF bc] mr
      apply (cases w)
      apply (simp add: sleep_def engineEvents_def)
      done
  next
    case False
    then have j0: "j = 0" using j mr km by simp
    show ?thesis
      apply (intro exI[of _ "Execute (fb_recipients fb) # bc @ tr"])
      using step r False w1 j0 cnt no_broadcast_kept[OF bc] mr
      apply (cases w)
      apply (simp add: engineEvents_def)
      done
  qed
qed

text \<open>With distinct keys, searching for the key of a member finds that member.\<close>

lemma find_distinct:
  "distinct (map f xs) \<Longrightarrow> x \<in> set xs \<Longrightarrow> find (\<lambda>y. f y = f x) xs = Some x"
  by (induction xs) (auto simp: image_iff)

text \<open>The loop of \<open>retryAllBatches\<close> against such a network, by induction on the batches left.\<close>

lemma retryAllLoop_exhausts:
  assumes fails: "\<forall>rs w. \<exists>e. fst (executeMultiSend env rs w) = Inl e"
    and dist: "distinct (map fb_batchNumber fbs)"
  shows "failedBatchesFile w = Stored fbs \<Longrightarrow> set rest \<subseteq> set fbs \<Longrightarrow>
     \<exists>tr. retryAllLoop env mr rest s f w
            = ((s, f + length rest),
               w\<lparr>trace := trace w @ tr,
                 calls := calls w + length rest * nat (toInteger mr)\<rparr>)
        \<and> engineEvents tr = resumeAllEvents (nat (toInteger mr)) rest"
proof (induction rest arbitrary: s f w)
  case Nil
  show ?case by (intro exI[of _ "[]"]) (simp add: engineEvents_def)
next
  case (Cons fb rest)
  have found: "find (\<lambda>batch. fb_batchNumber batch = fb_batchNumber fb) (getFailedBatches w) = Some fb"
    using find_distinct[OF dist, of fb] Cons.prems by (simp add: getFailedBatches_def)
  from retryLoop_exhausts[OF fails, of 0 mr "fb_batchNumber fb" fb w]
  obtain tr1 where r1: "retryLoop env mr (fb_batchNumber fb) fb 0 w
            = (False, w\<lparr>trace := trace w @ tr1, calls := calls w + nat (toInteger mr)\<rparr>)"
    "engineEvents tr1 = attemptsWithDelay (Num 10000) (fb_recipients fb) (nat (toInteger mr))"
    by auto
  let ?w1 = "w\<lparr>trace := trace w @ tr1, calls := calls w + nat (toInteger mr)\<rparr>"
  have rb: "retryBatch env (fb_batchNumber fb) mr w = (False, ?w1)"
    by (simp add: retryBatch_def found r1(1))
  let ?w2 = "if rest \<noteq> [] then sleep (Num 5000) ?w1 else ?w1"
  have st: "failedBatchesFile ?w2 = Stored fbs" using Cons.prems(1) by (simp add: sleep_def)
  have sub: "set rest \<subseteq> set fbs" using Cons.prems(2) by simp
  from Cons.IH[OF st sub, of s "Suc f"]
  obtain tr2 where r2: "retryAllLoop env mr rest s (Suc f) ?w2
            = ((s, Suc f + length rest),
               ?w2\<lparr>trace := trace ?w2 @ tr2,
                 calls := calls ?w2 + length rest * nat (toInteger mr)\<rparr>)"
    "engineEvents tr2 = resumeAllEvents (nat (toInteger mr)) rest" by blast
  have step: "retryAllLoop env mr (fb # rest) s f w = retryAllLoop env mr rest s (Suc f) ?w2"
    by (simp add: rb)
  show ?case
    apply (intro exI[of _ "tr1 @ (if rest \<noteq> [] then [Sleep (Num 5000)] else []) @ tr2"])
    using step r2 r1(2)
    apply (cases w)
    apply (simp add: sleep_def engineEvents_def)
    done
qed

lemma attemptsWithDelay_step:
  "0 < a \<Longrightarrow> attemptsWithDelay d rs (Suc a) = Execute rs # Sleep d # attemptsWithDelay d rs a"
  by (cases a) simp_all

text \<open>
  The removal leaves a stored array as it was, when its write fails, or without the batches
  of that number.
\<close>

lemma removeFromFailedBatches_file:
  "failedBatchesFile w = Stored fbs \<Longrightarrow>
   failedBatchesFile (removeFromFailedBatches env bn w) = Stored fbs
   \<or> failedBatchesFile (removeFromFailedBatches env bn w)
        = Stored (filter (\<lambda>batch. fb_batchNumber batch \<noteq> bn) fbs)"
  by (auto simp: removeFromFailedBatches_def writeFailedBatchesFile_def split: option.splits)

text \<open>
  Whatever the network answers, the loop of \<open>retryBatch\<close> entered at retry count \<open>k\<close>
  makes its attempts on the recipients stored in the failed batch, ten seconds apart: at
  most \<open>maxRetries - k\<close> of them, at least one when \<open>k < maxRetries\<close>, and exactly
  \<open>maxRetries - k\<close> when it returns \<open>false\<close>.
\<close>

lemma retryLoop_shape:
  "retryLoop env mr bn fb k w = (r, w') \<Longrightarrow> 0 \<le> k \<Longrightarrow>
   \<exists>tr a. trace w' = trace w @ tr
      \<and> engineEvents tr = attemptsWithDelay (Num 10000) (fb_recipients fb) a
      \<and> a \<le> nat (toInteger mr - k)
      \<and> (\<not> r \<longrightarrow> a = nat (toInteger mr - k))
      \<and> (num_lt (Num k) mr \<longrightarrow> 0 < a)"
proof (induction env mr bn fb k w rule: retryLoop.induct)
  case (1 env mr bn fb k w)
  show ?case
  proof (cases "num_lt (Num k) mr")
    case False
    with "1.prems" have "w' = w" "r = False" by (simp_all add: retryLoop.simps)
    moreover from False "1.prems"(2) have "nat (toInteger mr - k) = 0" by (cases mr) auto
    ultimately show ?thesis using False
      by (intro exI[of _ "[]"] exI[of _ 0]) (simp add: engineEvents_def)
  next
    case True
    then obtain m where mr: "mr = Num m" and km: "k < m" by (cases mr) auto
    obtain res w1 where ex: "executeMultiSend env (fb_recipients fb) w = (res, w1)"
      by (cases "executeMultiSend env (fb_recipients fb) w")
    from executeMultiSend_world[of env "fb_recipients fb" w] ex obtain bc where
      w1: "w1 = w\<lparr>trace := trace w @ Execute (fb_recipients fb) # bc, calls := Suc (calls w)\<rparr>"
      and bc: "list_all isBroadcast bc" by auto
    note nb = no_broadcast_kept[OF bc]
    let ?next = "\<lambda>w2. if num_lt (Num (k + 1)) mr then sleep (Num 10000) w2 else w2"
    let ?pause = "if num_lt (Num (k + 1)) mr then [Sleep (Num 10000)] else []"
    let ?body = "case res of Inl err \<Rightarrow> (True, w1)
          | Inr hash \<Rightarrow>
              (case retrier_saveTransactionHash env bn hash (length (fb_recipients fb)) w1 of
                 (None, w') \<Rightarrow> (False, removeFromFailedBatches env bn w')
               | (Some e, w') \<Rightarrow> (True, w'))"
    have ee: "engineEvents (Execute (fb_recipients fb) # bc) = [Execute (fb_recipients fb)]"
      using nb by (simp add: engineEvents_def)
    have again: "\<exists>tr a. trace w' = trace w @ tr
      \<and> engineEvents tr = attemptsWithDelay (Num 10000) (fb_recipients fb) a
      \<and> a \<le> nat (toInteger mr - k)
      \<and> (\<not> r \<longrightarrow> a = nat (toInteger mr - k))
      \<and> (num_lt (Num k) mr \<longrightarrow> 0 < a)"
      if xb: "(True, w2) = ?body" and tr2: "trace w2 = trace w1"
        and rec: "retryLoop env mr bn fb (k + 1) (?next w2) = (r, w')" for w2
    proof -
      have "0 \<le> k + 1" using "1.prems"(2) by simp
      from "1.IH"[OF True refl ex[symmetric] refl xb TrueI rec this]
      obtain tr a where t: "trace w' = trace (?next w2) @ tr"
        "engineEvents tr = attemptsWithDelay (Num 10000) (fb_recipients fb) a"
        "a \<le> nat (toInteger mr - (k + 1))"
        "\<not> r \<longrightarrow> a = nat (toInteger mr - (k + 1))"
        "num_lt (Num (k + 1)) mr \<longrightarrow> 0 < a" by blast
      have tn: "trace (?next w2) = trace w @ Execute (fb_recipients fb) # bc @ ?pause"
        using tr2 w1 by (simp add: sleep_def)
      have shape: "engineEvents (Execute (fb_recipients fb) # bc @ ?pause @ tr)
            = attemptsWithDelay (Num 10000) (fb_recipients fb) (Suc a)"
      proof (cases "k + 1 < m")
        case True
        with t(5) mr have "0 < a" by simp
        from attemptsWithDelay_step[OF this, of "Num 10000" "fb_recipients fb"] True mr t(2) nb
        show ?thesis by (simp add: engineEvents_def)
      next
        case False
        with t(3) mr have "a = 0" by simp
        with False mr t(2) nb show ?thesis by (simp add: engineEvents_def)
      qed
      have b1: "Suc a \<le> nat (toInteger mr - k)" using t(3) mr km by simp
      have b2: "\<not> r \<longrightarrow> Suc a = nat (toInteger mr - k)" using t(4) mr km by auto
      show ?thesis
        apply (intro exI[of _ "Execute (fb_recipients fb) # bc @ ?pause @ tr"] exI[of _ "Suc a"])
        using t(1) tn shape b1 b2 by simp
    qed
    show ?thesis
    proof (cases res)
      case (Inl err)
      with "1.prems"(1) True ex
      have rec: "retryLoop env mr bn fb (k + 1) (?next w1) = (r, w')"
        by (subst (asm) retryLoop.simps) simp
      have xb: "(True, w1) = ?body" using Inl by simp
      from again[OF xb refl rec] show ?thesis .
    next
      case (Inr hash)
      obtain sr w2 where sv: "retrier_saveTransactionHash env bn hash (length (fb_recipients fb)) w1 = (sr, w2)"
        by (cases "retrier_saveTransactionHash env bn hash (length (fb_recipients fb)) w1")
      from retrier_save_world[OF sv] have t2: "trace w2 = trace w1" by simp
      show ?thesis
      proof (cases sr)
        case None
        with "1.prems"(1) True ex Inr sv
        have "w' = removeFromFailedBatches env bn w2" "r = True"
          by (subst (asm) retryLoop.simps, simp)+
        then have "trace w' = trace w @ Execute (fb_recipients fb) # bc" "r"
          using removeFromFailedBatches_world[of env bn w2] t2 w1 by simp_all
        with ee km mr show ?thesis
          by (intro exI[of _ "Execute (fb_recipients fb) # bc"] exI[of _ "Suc 0"]) simp
      next
        case (Some e)
        with "1.prems"(1) True ex Inr sv
        have rec: "retryLoop env mr bn fb (k + 1) (?next w2) = (r, w')"
          by (subst (asm) retryLoop.simps) simp
        have xb: "(True, w2) = ?body" using Inr sv Some by simp
        from again[OF xb t2 rec] show ?thesis .
      qed
    qed
  qed
qed

text \<open>
  The loop leaves a stored array as it was or without the batches of the resumed number.
\<close>

lemma retryLoop_store:
  "retryLoop env mr bn fb k w = (r, w') \<Longrightarrow> failedBatchesFile w = Stored fbs \<Longrightarrow>
   failedBatchesFile w' = Stored fbs
   \<or> failedBatchesFile w' = Stored (filter (\<lambda>batch. fb_batchNumber batch \<noteq> bn) fbs)"
proof (induction env mr bn fb k w rule: retryLoop.induct)
  case (1 env mr bn fb k w)
  show ?case
  proof (cases "num_lt (Num k) mr")
    case False
    with "1.prems" show ?thesis by (simp add: retryLoop.simps)
  next
    case True
    obtain res w1 where ex: "executeMultiSend env (fb_recipients fb) w = (res, w1)"
      by (cases "executeMultiSend env (fb_recipients fb) w")
    from executeMultiSend_world[of env "fb_recipients fb" w] ex
    have f1: "failedBatchesFile w1 = failedBatchesFile w" by auto
    let ?next = "\<lambda>w2. if num_lt (Num (k + 1)) mr then sleep (Num 10000) w2 else w2"
    let ?body = "case res of Inl err \<Rightarrow> (True, w1)
          | Inr hash \<Rightarrow>
              (case retrier_saveTransactionHash env bn hash (length (fb_recipients fb)) w1 of
                 (None, w') \<Rightarrow> (False, removeFromFailedBatches env bn w')
               | (Some e, w') \<Rightarrow> (True, w'))"
    show ?thesis
    proof (cases res)
      case (Inl err)
      with "1.prems"(1) True ex
      have rec: "retryLoop env mr bn fb (k + 1) (?next w1) = (r, w')"
        by (subst (asm) retryLoop.simps) simp
      have st: "failedBatchesFile (?next w1) = Stored fbs"
        using f1 "1.prems"(2) by (simp add: sleep_def)
      have xb: "(True, w1) = ?body" using Inl by simp
      from "1.IH"[OF True refl ex[symmetric] refl xb TrueI rec st]
      show ?thesis .
    next
      case (Inr hash)
      obtain sr w2 where sv: "retrier_saveTransactionHash env bn hash (length (fb_recipients fb)) w1 = (sr, w2)"
        by (cases "retrier_saveTransactionHash env bn hash (length (fb_recipients fb)) w1")
      from retrier_save_world[OF sv] f1 "1.prems"(2)
      have f2: "failedBatchesFile w2 = Stored fbs" by simp
      show ?thesis
      proof (cases sr)
        case None
        with "1.prems"(1) True ex Inr sv
        have "w' = removeFromFailedBatches env bn w2"
          by (subst (asm) retryLoop.simps) simp
        with removeFromFailedBatches_file[OF f2, of env bn] show ?thesis by simp
      next
        case (Some e)
        with "1.prems"(1) True ex Inr sv
        have rec: "retryLoop env mr bn fb (k + 1) (?next w2) = (r, w')"
          by (subst (asm) retryLoop.simps) simp
        have st: "failedBatchesFile (?next w2) = Stored fbs"
          using f2 by (simp add: sleep_def)
        have xb: "(True, w2) = ?body" using Inr sv Some by simp
        from "1.IH"[OF True refl ex[symmetric] refl xb TrueI rec st]
        show ?thesis .
      qed
    qed
  qed
qed

text \<open>
  The loop of \<open>retryAllBatches\<close>, whatever the network answers, by induction on the batches
  left: all of them are in the store, whose batch numbers are distinct, and a resume
  removes at most the batch it worked on.
\<close>

lemma retryAllLoop_shape:
  "failedBatchesFile w = Stored cur \<Longrightarrow> distinct (map fb_batchNumber cur) \<Longrightarrow>
   set rest \<subseteq> set cur \<Longrightarrow> distinct (map fb_batchNumber rest) \<Longrightarrow>
   \<exists>tr as oks. trace (snd (retryAllLoop env mr rest s f w)) = trace w @ tr
      \<and> engineEvents tr = resumeEvents (zip rest as)
      \<and> length as = length rest
      \<and> list_all2 (\<lambda>a ok. a \<le> nat (toInteger mr) \<and> (\<not> ok \<longrightarrow> a = nat (toInteger mr))
                        \<and> (0 < nat (toInteger mr) \<longrightarrow> 0 < a)) as oks
      \<and> fst (retryAllLoop env mr rest s f w)
          = (s + length (filter (\<lambda>ok. ok) oks), f + length (filter Not oks))"
proof (induction rest arbitrary: s f w cur)
  case Nil
  show ?case by (intro exI[of _ "[]"]) (simp add: engineEvents_def)
next
  case (Cons fb rest)
  let ?bn = "fb_batchNumber fb"
  let ?M = "nat (toInteger mr)"
  have found: "find (\<lambda>batch. fb_batchNumber batch = ?bn) (getFailedBatches w) = Some fb"
    using find_distinct[OF Cons.prems(2), of fb] Cons.prems(1,3) by (simp add: getFailedBatches_def)
  obtain r w1 where rl: "retryLoop env mr ?bn fb 0 w = (r, w1)"
    by (cases "retryLoop env mr ?bn fb 0 w")
  then have rb: "retryBatch env ?bn mr w = (r, w1)" by (simp add: retryBatch_def found)
  from retryLoop_shape[OF rl] obtain tr1 a where s1: "trace w1 = trace w @ tr1"
    "engineEvents tr1 = attemptsWithDelay (Num 10000) (fb_recipients fb) a"
    "a \<le> ?M" "\<not> r \<longrightarrow> a = ?M" "num_lt (Num 0) mr \<longrightarrow> 0 < a" by auto
  have pos: "0 < ?M \<longrightarrow> 0 < a" using s1(5) by (cases mr) auto
  let ?w2 = "if rest \<noteq> [] then sleep (Num 5000) w1 else w1"
  let ?cur' = "filter (\<lambda>batch. fb_batchNumber batch \<noteq> ?bn) cur"
  from retryLoop_store[OF rl Cons.prems(1)]
  have st: "failedBatchesFile ?w2 = Stored cur \<or> failedBatchesFile ?w2 = Stored ?cur'"
    by (auto simp: sleep_def)
  have d': "distinct (map fb_batchNumber ?cur')" using Cons.prems(2) by (rule distinct_map_filter)
  have sub: "set rest \<subseteq> set cur" using Cons.prems(3) by simp
  have sub': "set rest \<subseteq> set ?cur'" using Cons.prems(3,4) by (auto simp: image_iff)
  have dr: "distinct (map fb_batchNumber rest)" using Cons.prems(4) by simp
  have IH: "\<exists>tr as oks. trace (snd (retryAllLoop env mr rest s' f' ?w2)) = trace ?w2 @ tr
      \<and> engineEvents tr = resumeEvents (zip rest as)
      \<and> length as = length rest
      \<and> list_all2 (\<lambda>a ok. a \<le> ?M \<and> (\<not> ok \<longrightarrow> a = ?M) \<and> (0 < ?M \<longrightarrow> 0 < a)) as oks
      \<and> fst (retryAllLoop env mr rest s' f' ?w2)
          = (s' + length (filter (\<lambda>ok. ok) oks), f' + length (filter Not oks))" for s' f'
    using st
  proof
    assume "failedBatchesFile ?w2 = Stored cur"
    from Cons.IH[OF this Cons.prems(2) sub dr] show ?thesis .
  next
    assume "failedBatchesFile ?w2 = Stored ?cur'"
    from Cons.IH[OF this d' sub' dr] show ?thesis .
  qed
  have step: "retryAllLoop env mr (fb # rest) s f w
      = retryAllLoop env mr rest (if r then Suc s else s) (if r then f else Suc f) ?w2"
    by (simp add: rb)
  from IH[of "if r then Suc s else s" "if r then f else Suc f"]
  obtain tr2 as oks where s2:
    "trace (snd (retryAllLoop env mr rest (if r then Suc s else s) (if r then f else Suc f) ?w2))
       = trace ?w2 @ tr2"
    "engineEvents tr2 = resumeEvents (zip rest as)"
    "length as = length rest"
    "list_all2 (\<lambda>a ok. a \<le> ?M \<and> (\<not> ok \<longrightarrow> a = ?M) \<and> (0 < ?M \<longrightarrow> 0 < a)) as oks"
    "fst (retryAllLoop env mr rest (if r then Suc s else s) (if r then f else Suc f) ?w2)
       = ((if r then Suc s else s) + length (filter (\<lambda>ok. ok) oks),
          (if r then f else Suc f) + length (filter Not oks))" by blast
  have tw2: "trace ?w2 = trace w @ tr1 @ (if rest \<noteq> [] then [Sleep (Num 5000)] else [])"
    using s1(1) by (simp add: sleep_def)
  have zne: "(zip rest as \<noteq> []) = (rest \<noteq> [])" using s2(3) by (cases rest; cases as) simp_all
  have ev: "engineEvents (tr1 @ (if rest \<noteq> [] then [Sleep (Num 5000)] else []) @ tr2)
      = resumeEvents (zip (fb # rest) (a # as))"
    using s1(2) s2(2) zne by (simp add: engineEvents_def)
  show ?case
    apply (intro exI[of _ "tr1 @ (if rest \<noteq> [] then [Sleep (Num 5000)] else []) @ tr2"]
        exI[of _ "a # as"] exI[of _ "r # oks"])
    apply (intro conjI)
    subgoal using step s2(1) tw2 by simp
    subgoal by (rule ev)
    subgoal using s2(3) by simp
    subgoal using s2(4) s1(3,4) pos by simp
    subgoal using step s2(5) by simp
    done
qed

text \<open>
  C6, as the code has it. A resume of a batch number works on the first failed batch stored
  with that number. Whatever the network answers, it makes at most \<open>maxRetries\<close> attempts
  (not \<open>maxRetries + 1\<close>), each on the recipients stored in that failed batch (nothing is
  split again), with a fixed suspension of ten seconds (not the retry delay) between two
  attempts and none before the first or after the last; it makes at least one attempt when
  \<open>maxRetries\<close> is positive, none when \<open>maxRetries\<close> is not a positive number, and exactly
  \<open>maxRetries\<close> when it returns \<open>false\<close>. Resuming all failed batches of a store with
  distinct batch numbers does this for each batch of the array read at the start, in stored
  order, one at a time, five seconds apart, whether the resumes before it succeeded or not,
  and counts each batch as succeeded or failed. When every call fails, a resume makes
  exactly \<open>maxRetries\<close> attempts, returns \<open>false\<close> and writes nothing, and resuming all
  failed batches reports them all as failed.
\<close>

theorem resume_attempts:
  "(find (\<lambda>batch. fb_batchNumber batch = bn) (getFailedBatches w) = Some fb \<longrightarrow>
      (\<exists>tr a. trace (snd (retryBatch env bn mr w)) = trace w @ tr
         \<and> engineEvents tr = attemptsWithDelay (Num 10000) (fb_recipients fb) a
         \<and> a \<le> nat (toInteger mr)
         \<and> (\<not> fst (retryBatch env bn mr w) \<longrightarrow> a = nat (toInteger mr))
         \<and> (0 < nat (toInteger mr) \<longrightarrow> 0 < a)))
   \<and> (distinct (map fb_batchNumber (getFailedBatches w)) \<longrightarrow>
      (\<exists>tr as oks. trace (snd (retryAllBatches env mr w)) = trace w @ tr
         \<and> engineEvents tr = resumeEvents (zip (getFailedBatches w) as)
         \<and> length as = length (getFailedBatches w)
         \<and> list_all2 (\<lambda>a ok. a \<le> nat (toInteger mr) \<and> (\<not> ok \<longrightarrow> a = nat (toInteger mr))
                           \<and> (0 < nat (toInteger mr) \<longrightarrow> 0 < a)) as oks
         \<and> fst (retryAllBatches env mr w)
             = (length (filter (\<lambda>ok. ok) oks), length (filter Not oks))))
   \<and> ((\<forall>rs' w0. \<exists>e. fst (executeMultiSend env rs' w0) = Inl e) \<longrightarrow>
        (find (\<lambda>batch. fb_batchNumber batch = bn) (getFailedBatches w) = Some fb \<longrightarrow>
           (\<exists>tr. retryBatch env bn mr w
                   = (False, w\<lparr>trace := trace w @ tr, calls := calls w + nat (toInteger mr)\<rparr>)
               \<and> engineEvents tr
                   = attemptsWithDelay (Num 10000) (fb_recipients fb) (nat (toInteger mr))))
      \<and> (distinct (map fb_batchNumber (getFailedBatches w)) \<longrightarrow>
           (\<exists>tr. retryAllBatches env mr w
                   = ((0, length (getFailedBatches w)),
                      w\<lparr>trace := trace w @ tr,
                        calls := calls w + length (getFailedBatches w) * nat (toInteger mr)\<rparr>)
               \<and> engineEvents tr = resumeAllEvents (nat (toInteger mr)) (getFailedBatches w))))"
proof (intro conjI allI impI)
  assume found: "find (\<lambda>batch. fb_batchNumber batch = bn) (getFailedBatches w) = Some fb"
  obtain r w' where rl: "retryLoop env mr bn fb 0 w = (r, w')"
    by (cases "retryLoop env mr bn fb 0 w")
  then have rb: "retryBatch env bn mr w = (r, w')" by (simp add: retryBatch_def found)
  from retryLoop_shape[OF rl] obtain tr a where s1: "trace w' = trace w @ tr"
    "engineEvents tr = attemptsWithDelay (Num 10000) (fb_recipients fb) a"
    "a \<le> nat (toInteger mr)" "\<not> r \<longrightarrow> a = nat (toInteger mr)" "num_lt (Num 0) mr \<longrightarrow> 0 < a"
    by auto
  have pos: "0 < nat (toInteger mr) \<longrightarrow> 0 < a" using s1(5) by (cases mr) auto
  show "\<exists>tr a. trace (snd (retryBatch env bn mr w)) = trace w @ tr
         \<and> engineEvents tr = attemptsWithDelay (Num 10000) (fb_recipients fb) a
         \<and> a \<le> nat (toInteger mr)
         \<and> (\<not> fst (retryBatch env bn mr w) \<longrightarrow> a = nat (toInteger mr))
         \<and> (0 < nat (toInteger mr) \<longrightarrow> 0 < a)"
    using s1(1-4) pos rb by (intro exI[of _ tr] exI[of _ a]) simp
next
  assume dist: "distinct (map fb_batchNumber (getFailedBatches w))"
  show "\<exists>tr as oks. trace (snd (retryAllBatches env mr w)) = trace w @ tr
         \<and> engineEvents tr = resumeEvents (zip (getFailedBatches w) as)
         \<and> length as = length (getFailedBatches w)
         \<and> list_all2 (\<lambda>a ok. a \<le> nat (toInteger mr) \<and> (\<not> ok \<longrightarrow> a = nat (toInteger mr))
                           \<and> (0 < nat (toInteger mr) \<longrightarrow> 0 < a)) as oks
         \<and> fst (retryAllBatches env mr w)
             = (length (filter (\<lambda>ok. ok) oks), length (filter Not oks))"
  proof (cases "getFailedBatches w = []")
    case True
    then show ?thesis
      by (intro exI[of _ "[]"]) (simp add: retryAllBatches_def engineEvents_def)
  next
    case False
    then obtain fbs where st: "failedBatchesFile w = Stored fbs"
      by (auto simp: getFailedBatches_def split: failed_file.splits)
    then have g: "getFailedBatches w = fbs" by (simp add: getFailedBatches_def)
    from retryAllLoop_shape[OF st dist[unfolded g] subset_refl dist[unfolded g], of env mr 0 0]
    show ?thesis using False g by (simp add: retryAllBatches_def)
  qed
next
  assume fails: "\<forall>rs' w0. \<exists>e. fst (executeMultiSend env rs' w0) = Inl e"
    and found: "find (\<lambda>batch. fb_batchNumber batch = bn) (getFailedBatches w) = Some fb"
  from retryLoop_exhausts[OF fails, of 0 mr bn fb w] found
  show "\<exists>tr. retryBatch env bn mr w
                   = (False, w\<lparr>trace := trace w @ tr, calls := calls w + nat (toInteger mr)\<rparr>)
               \<and> engineEvents tr
                   = attemptsWithDelay (Num 10000) (fb_recipients fb) (nat (toInteger mr))"
    by (simp add: retryBatch_def)
next
  assume fails: "\<forall>rs' w0. \<exists>e. fst (executeMultiSend env rs' w0) = Inl e"
    and dist: "distinct (map fb_batchNumber (getFailedBatches w))"
  show "\<exists>tr. retryAllBatches env mr w
                   = ((0, length (getFailedBatches w)),
                      w\<lparr>trace := trace w @ tr,
                        calls := calls w + length (getFailedBatches w) * nat (toInteger mr)\<rparr>)
               \<and> engineEvents tr = resumeAllEvents (nat (toInteger mr)) (getFailedBatches w)"
  proof (cases "getFailedBatches w = []")
    case True
    then show ?thesis
      by (intro exI[of _ "[]"]) (simp add: retryAllBatches_def engineEvents_def)
  next
    case False
    then obtain fbs where st: "failedBatchesFile w = Stored fbs"
      by (auto simp: getFailedBatches_def split: failed_file.splits)
    then have g: "getFailedBatches w = fbs" by (simp add: getFailedBatches_def)
    from retryAllLoop_exhausts[OF fails dist[unfolded g] st subset_refl, of mr 0 0]
    show ?thesis using False g by (simp add: retryAllBatches_def)
  qed
qed

theorem resume_attempts_witness:
  "find (\<lambda>batch. fb_batchNumber batch = 1) (getFailedBatches worldFailedOne) = Some failedOne
   \<and> (\<exists>tr a. trace (snd (retryBatch envFirstCallFails 1 (Num 3) worldFailedOne))
                = trace worldFailedOne @ tr
         \<and> engineEvents tr = attemptsWithDelay (Num 10000) (fb_recipients failedOne) a
         \<and> a \<le> nat (toInteger (Num 3))
         \<and> (\<not> fst (retryBatch envFirstCallFails 1 (Num 3) worldFailedOne)
              \<longrightarrow> a = nat (toInteger (Num 3)))
         \<and> (0 < nat (toInteger (Num 3)) \<longrightarrow> 0 < a))
   \<and> engineEvents (trace (snd (retryBatch envFirstCallFails 1 (Num 3) worldFailedOne)))
        = [Execute [alice, bob], Sleep (Num 10000), Execute [alice, bob]]
   \<and> distinct (map fb_batchNumber (getFailedBatches worldFailedTwo))
   \<and> (\<exists>tr as oks. trace (snd (retryAllBatches envFirstCallFails (Num 3) worldFailedTwo))
                = trace worldFailedTwo @ tr
         \<and> engineEvents tr = resumeEvents (zip (getFailedBatches worldFailedTwo) as)
         \<and> length as = length (getFailedBatches worldFailedTwo)
         \<and> list_all2 (\<lambda>a ok. a \<le> nat (toInteger (Num 3))
                           \<and> (\<not> ok \<longrightarrow> a = nat (toInteger (Num 3)))
                           \<and> (0 < nat (toInteger (Num 3)) \<longrightarrow> 0 < a)) as oks
         \<and> fst (retryAllBatches envFirstCallFails (Num 3) worldFailedTwo)
             = (length (filter (\<lambda>ok. ok) oks), length (filter Not oks)))
   \<and> fst (retryAllBatches envFirstCallFails (Num 3) worldFailedTwo) = (2, 0)
   \<and> engineEvents (trace (snd (retryAllBatches envFirstCallFails (Num 3) worldFailedTwo)))
        = [Execute [alice, bob], Sleep (Num 10000), Execute [alice, bob], Sleep (Num 5000),
           Execute [carol]]
   \<and> failedBatchesFile (snd (retryAllBatches envFirstCallFails (Num 3) worldFailedTwo))
        = Stored []
   \<and> (\<forall>rs' w0. \<exists>e. fst (executeMultiSend envUnreachable rs' w0) = Inl e)
   \<and> (\<exists>tr. retryBatch envUnreachable 1 (Num 3) worldFailedOne
             = (False, worldFailedOne\<lparr>trace := trace worldFailedOne @ tr,
                        calls := calls worldFailedOne + nat (toInteger (Num 3))\<rparr>)
          \<and> engineEvents tr
             = attemptsWithDelay (Num 10000) (fb_recipients failedOne) (nat (toInteger (Num 3))))
   \<and> (\<exists>tr. retryAllBatches envUnreachable (Num 3) worldFailedTwo
             = ((0, length (getFailedBatches worldFailedTwo)),
                worldFailedTwo\<lparr>trace := trace worldFailedTwo @ tr,
                   calls := calls worldFailedTwo
                      + length (getFailedBatches worldFailedTwo) * nat (toInteger (Num 3))\<rparr>)
          \<and> engineEvents tr
             = resumeAllEvents (nat (toInteger (Num 3))) (getFailedBatches worldFailedTwo))"
proof -
  have found: "find (\<lambda>batch. fb_batchNumber batch = 1) (getFailedBatches worldFailedOne) = Some failedOne"
    by (simp add: getFailedBatches_def worldFailedOne_def failedOne_def)
  have dist: "distinct (map fb_batchNumber (getFailedBatches worldFailedTwo))"
    by (simp add: getFailedBatches_def worldFailedTwo_def failedOne_def failedTwo_def)
  have fails: "\<forall>rs' w0. \<exists>e. fst (executeMultiSend envUnreachable rs' w0) = Inl e"
    by (simp add: executeMultiSend_def envUnreachable_def unreachable_def Let_def)
  note one = resume_attempts[where env = envFirstCallFails and bn = 1 and mr = "Num 3"
      and w = worldFailedOne and fb = failedOne, THEN conjunct1, THEN mp, OF found]
  note all = resume_attempts[where env = envFirstCallFails and mr = "Num 3"
      and w = worldFailedTwo, THEN conjunct2, THEN conjunct1, THEN mp, OF dist]
  note t = resume_attempts[where env = envUnreachable and bn = 1 and mr = "Num 3"
      and w = worldFailedOne and fb = failedOne, THEN conjunct2, THEN conjunct2, THEN mp, OF fails]
  note oneFails = t[THEN conjunct1, THEN mp, OF found]
  note u = resume_attempts[where env = envUnreachable and mr = "Num 3"
      and w = worldFailedTwo, THEN conjunct2, THEN conjunct2, THEN mp, OF fails]
  note allFail = u[THEN conjunct2, THEN mp, OF dist]
  have ev1: "engineEvents (trace (snd (retryBatch envFirstCallFails 1 (Num 3) worldFailedOne)))
        = [Execute [alice, bob], Sleep (Num 10000), Execute [alice, bob]]" by code_simp
  have cnt: "fst (retryAllBatches envFirstCallFails (Num 3) worldFailedTwo) = (2, 0)" by code_simp
  have ev2: "engineEvents (trace (snd (retryAllBatches envFirstCallFails (Num 3) worldFailedTwo)))
        = [Execute [alice, bob], Sleep (Num 10000), Execute [alice, bob], Sleep (Num 5000),
           Execute [carol]]" by code_simp
  have store: "failedBatchesFile (snd (retryAllBatches envFirstCallFails (Num 3) worldFailedTwo))
        = Stored []" by code_simp
  show ?thesis by (intro conjI found one ev1 dist all cnt ev2 store fails oneFails allFail)
qed

text \<open>
  The claim C6 itself fails: with \<open>maxRetries = 3\<close> and a network that fails every call, the
  resume of a batch makes 3 attempts, where the initial run makes \<open>maxRetries + 1 = 4\<close> on
  the same recipients.
\<close>

theorem resume_makes_one_attempt_less:
  "length (filter isExecute (trace (snd (retryBatch envUnreachable 1 (Num 3) worldFailedOne)))) = 3
   \<and> length (filter isExecute (trace (snd (snd
        (attemptLoop envUnreachable (Num 3) (Num 5000) [alice, bob] 0 None worldFailedOne))))) = 4"
  by code_simp

section \<open>The batch size is never checked\<close>

text \<open>
  With a batch size that is not positive, the loop of the Batcher has no result from any
  index inside the array: the index never gets past the end.
\<close>

lemma splitLoop_no_result:
  assumes res: "splitLoop bsz R i acc = Some y"
  shows "\<not> (\<exists>n j. bsz = Num n \<and> n \<le> 0 \<and> i = Num j \<and> j < int (length R))"
proof (rule splitLoop.raw_induct
    [where P = "\<lambda>bsz R i acc y. \<not> (\<exists>n j. bsz = Num n \<and> n \<le> 0 \<and> i = Num j \<and> j < int (length R))",
      OF _ res])
  fix f bsz R i acc y
  assume IH: "\<And>bsz R i acc y. f bsz R i acc = Some y \<Longrightarrow>
      \<not> (\<exists>n j. bsz = Num n \<and> n \<le> 0 \<and> i = Num j \<and> j < int (length R))"
    and body: "(if num_lt i (Num (int (length R)))
      then f bsz R (num_add i bsz) (acc @ [slice R i (num_add i bsz)])
      else Some acc) = Some (y :: recipient list list)"
  show "\<not> (\<exists>n j. bsz = Num n \<and> n \<le> 0 \<and> i = Num j \<and> j < int (length R))"
  proof
    assume "\<exists>n j. bsz = Num n \<and> n \<le> 0 \<and> i = Num j \<and> j < int (length R)"
    then obtain n j where nj: "bsz = Num n" "n \<le> 0" "i = Num j" "j < int (length R)" by blast
    with body have "f bsz R (Num (j + n)) (acc @ [slice R i (Num (j + n))]) = Some y" by simp
    then have "\<not> (\<exists>n' j'. bsz = Num n' \<and> n' \<le> 0 \<and> Num (j + n) = Num j' \<and> j' < int (length R))"
      by (rule IH)
    moreover have "bsz = Num n \<and> n \<le> 0 \<and> Num (j + n) = Num (j + n) \<and> j + n < int (length R)"
      using nj by simp
    ultimately show False by blast
  qed
qed

lemma splitIntoBatches_nonpositive:
  "n \<le> 0 \<Longrightarrow> R \<noteq> [] \<Longrightarrow> splitIntoBatches (Num n) R = None"
  using splitLoop_no_result[of "Num n" R "Num 0" "[]"]
  by (cases "splitIntoBatches (Num n) R") (auto simp: splitIntoBatches_def)

text \<open>With \<open>NaN\<close> the loop runs once, and its slice is empty.\<close>

lemma splitIntoBatches_NaN:
  "R \<noteq> [] \<Longrightarrow> splitIntoBatches NaN R = Some [[]]"
  unfolding splitIntoBatches_def
  apply (subst splitLoop.simps)
  apply simp
  apply (subst splitLoop.simps)
  apply (simp add: slice_def)
  done

lemma splitIntoBatches_empty: "splitIntoBatches bsz [] = Some []"
  unfolding splitIntoBatches_def by (subst splitLoop.simps) simp

text \<open>
  The loop of the Batcher, round by round.
\<close>

lemma splitLoop_round:
  "splitLoop bsz R i acc =
     (if num_lt i (Num (int (length R)))
      then splitLoop bsz R (fst (splitRound bsz R (i, acc))) (snd (splitRound bsz R (i, acc)))
      else Some acc)"
  by (subst splitLoop.simps) (simp add: splitRound_def)

text \<open>
  With a batch size that is not positive, the index never gets above 0: after any number
  \<open>k\<close> of rounds from the start it is still inside an array that is not empty, and the
  array of batches holds \<open>k\<close> batches.
\<close>

lemma splitRound_grows:
  assumes n: "n \<le> 0"
  shows "(\<exists>j. fst ((splitRound (Num n) R ^^ k) (Num 0, [])) = Num j \<and> j \<le> 0)
       \<and> length (snd ((splitRound (Num n) R ^^ k) (Num 0, []))) = k"
proof (induction k)
  case 0
  show ?case by simp
next
  case (Suc k)
  obtain i acc where st: "(splitRound (Num n) R ^^ k) (Num 0, []) = (i, acc)"
    by (cases "(splitRound (Num n) R ^^ k) (Num 0, [])")
  with Suc obtain j where j: "i = Num j" "j \<le> 0" "length acc = k" by auto
  have "(splitRound (Num n) R ^^ Suc k) (Num 0, [])
        = (Num (j + n), acc @ [slice R (Num j) (Num (j + n))])"
    using st j(1) by (simp add: splitRound_def)
  with j n show ?case by simp
qed

text \<open>
  C9, as the code has it. Nothing checks the batch size: \<open>parseArgs\<close> hands on what
  \<open>parseInt\<close> returns and \<open>main\<close> passes it to the engine. The loop of the Batcher goes
  round by round while the index is inside the array. It returns the partition for a batch
  size of at least one, a single empty batch for \<open>NaN\<close> and a list that is not empty,
  and no batch for the empty list. For a batch size that is not positive and a list that
  is not empty it has no result: after any number \<open>k\<close> of rounds the index is still
  inside the array and the array of batches holds \<open>k\<close> batches, so that array grows
  beyond any length. A run of \<open>main\<close> with such a batch size that is not a resume, asks
  for no help and passes the checks of \<open>main\<close> therefore ends when the array can grow
  no further, after the hashes file was reset and without an attempt: aborted by the
  runtime, or with status 1 when \<open>push\<close> throws. With \<open>NaN\<close> such a run ends as the
  loop over the single empty batch ends.
\<close>

theorem batch_size_is_not_validated:
  "splitLoop bsz R i acc
      = (if num_lt i (Num (int (length R)))
         then splitLoop bsz R (fst (splitRound bsz R (i, acc))) (snd (splitRound bsz R (i, acc)))
         else Some acc)
   \<and> (1 \<le> n \<longrightarrow> (\<exists>bs. splitIntoBatches (Num n) R = Some bs \<and> concat bs = R))
   \<and> (R \<noteq> [] \<longrightarrow> splitIntoBatches NaN R = Some [[]])
   \<and> splitIntoBatches bsz [] = Some []
   \<and> (n \<le> 0 \<and> R \<noteq> [] \<longrightarrow>
        splitIntoBatches (Num n) R = None
      \<and> (\<forall>k. num_lt (fst ((splitRound (Num n) R ^^ k) (Num 0, []))) (Num (int (length R)))
             \<and> length (snd ((splitRound (Num n) R ^^ k) (Num 0, []))) = k))
   \<and> (\<not> retry (parseArgs argv) \<and> \<not> helpRequested argv \<and> validateConfig st
        \<and> startAddress st = Inr a \<and> startBalance st = Inr bal
        \<and> csvRecipients st = Inr R \<and> R \<noteq> []
        \<and> disk env (writes w) = None \<and> reduceAmounts (BigInt env) 0 R = Inr t
      \<longrightarrow>
        (batchSize (parseArgs argv) = Num n \<and> n \<le> 0 \<longrightarrow>
           main env st argv w
             = (case arrayFull st of None \<Rightarrow> Abort | Some e \<Rightarrow> Exit 1,
                w\<lparr>hashesFile := [Header], writes := Suc (writes w)\<rparr>))
      \<and> (batchSize (parseArgs argv) = NaN \<longrightarrow>
           main env st argv w
             = (case batchLoop env (maxRetries (parseArgs argv)) (retryDelay (parseArgs argv))
                       1 0 [[]] [] (w\<lparr>hashesFile := [Header], writes := Suc (writes w)\<rparr>) of
                  (Inl e, w2) \<Rightarrow> (Exit 1, w2)
                | (Inr hashes, w2) \<Rightarrow> (Exit 0, w2))))"
proof (intro conjI impI)
  show "splitLoop bsz R i acc
      = (if num_lt i (Num (int (length R)))
         then splitLoop bsz R (fst (splitRound bsz R (i, acc))) (snd (splitRound bsz R (i, acc)))
         else Some acc)"
    by (rule splitLoop_round)
next
  assume "1 \<le> n"
  from splitLoop_returns[OF this, of R 0 "[]"]
  show "\<exists>bs. splitIntoBatches (Num n) R = Some bs \<and> concat bs = R"
    by (auto simp: splitIntoBatches_def)
next
  assume "R \<noteq> []"
  then show "splitIntoBatches NaN R = Some [[]]" by (rule splitIntoBatches_NaN)
next
  show "splitIntoBatches bsz [] = Some []" by (rule splitIntoBatches_empty)
next
  assume "n \<le> 0 \<and> R \<noteq> []"
  then show "splitIntoBatches (Num n) R = None" by (simp add: splitIntoBatches_nonpositive)
next
  assume a: "n \<le> 0 \<and> R \<noteq> []"
  show "\<forall>k. num_lt (fst ((splitRound (Num n) R ^^ k) (Num 0, []))) (Num (int (length R)))
             \<and> length (snd ((splitRound (Num n) R ^^ k) (Num 0, []))) = k"
  proof
    fix k
    from a have n: "n \<le> 0" and len: "0 < int (length R)" by simp_all
    from splitRound_grows[OF n, where R = R and k = k]
    obtain j where "fst ((splitRound (Num n) R ^^ k) (Num 0, [])) = Num j" "j \<le> 0"
      "length (snd ((splitRound (Num n) R ^^ k) (Num 0, []))) = k" by blast
    with len
    show "num_lt (fst ((splitRound (Num n) R ^^ k) (Num 0, []))) (Num (int (length R)))
             \<and> length (snd ((splitRound (Num n) R ^^ k) (Num 0, []))) = k"
      by (cases R) auto
  qed
next
  assume p: "\<not> retry (parseArgs argv) \<and> \<not> helpRequested argv \<and> validateConfig st
        \<and> startAddress st = Inr a \<and> startBalance st = Inr bal
        \<and> csvRecipients st = Inr R \<and> R \<noteq> []
        \<and> disk env (writes w) = None \<and> reduceAmounts (BigInt env) 0 R = Inr t"
    and b: "batchSize (parseArgs argv) = Num n \<and> n \<le> 0"
  from p b have "splitIntoBatches (batchSize (parseArgs argv)) R = None"
    by (simp add: splitIntoBatches_nonpositive)
  then have "processBatches env (batchSize (parseArgs argv)) (maxRetries (parseArgs argv))
             (retryDelay (parseArgs argv)) R
             (w\<lparr>hashesFile := [Header], writes := Suc (writes w)\<rparr>) = None"
    by (simp add: processBatches_def)
  with p show "main env st argv w
             = (case arrayFull st of None \<Rightarrow> Abort | Some e \<Rightarrow> Exit 1,
                w\<lparr>hashesFile := [Header], writes := Suc (writes w)\<rparr>)"
    by (simp add: main_dispatches[of argv st a bal R env w t] split: option.splits)
next
  assume p: "\<not> retry (parseArgs argv) \<and> \<not> helpRequested argv \<and> validateConfig st
        \<and> startAddress st = Inr a \<and> startBalance st = Inr bal
        \<and> csvRecipients st = Inr R \<and> R \<noteq> []
        \<and> disk env (writes w) = None \<and> reduceAmounts (BigInt env) 0 R = Inr t"
    and b: "batchSize (parseArgs argv) = NaN"
  from p b have "splitIntoBatches (batchSize (parseArgs argv)) R = Some [[]]"
    by (simp add: splitIntoBatches_NaN)
  then have "processBatches env (batchSize (parseArgs argv)) (maxRetries (parseArgs argv))
             (retryDelay (parseArgs argv)) R
             (w\<lparr>hashesFile := [Header], writes := Suc (writes w)\<rparr>)
        = Some (batchLoop env (maxRetries (parseArgs argv)) (retryDelay (parseArgs argv))
                       1 0 [[]] [] (w\<lparr>hashesFile := [Header], writes := Suc (writes w)\<rparr>))"
    by (simp add: processBatches_def)
  with p show "main env st argv w
             = (case batchLoop env (maxRetries (parseArgs argv)) (retryDelay (parseArgs argv))
                       1 0 [[]] [] (w\<lparr>hashesFile := [Header], writes := Suc (writes w)\<rparr>) of
                  (Inl e, w2) \<Rightarrow> (Exit 1, w2)
                | (Inr hashes, w2) \<Rightarrow> (Exit 0, w2))"
    by (simp add: main_dispatches[of argv st a bal R env w t] split: prod.splits sum.splits)
qed

theorem batch_size_is_not_validated_witness:
  "\<not> retry (parseArgs [''--batch-size=0'']) \<and> \<not> helpRequested [''--batch-size=0'']
   \<and> validateConfig validStartup
   \<and> startAddress validStartup = Inr ''zig1sender'' \<and> startBalance validStartup = Inr ''1000''
   \<and> csvRecipients validStartup = Inr [alice, bob, carol] \<and> [alice, bob, carol] \<noteq> []
   \<and> disk envSettles (writes emptyWorld) = None
   \<and> reduceAmounts (BigInt envSettles) 0 [alice, bob, carol] = Inr 23
   \<and> batchSize (parseArgs [''--batch-size=0'']) = Num 0 \<and> (0::int) \<le> 0
   \<and> arrayFull validStartup = None
   \<and> main envSettles validStartup [''--batch-size=0''] emptyWorld
       = (Abort, emptyWorld\<lparr>hashesFile := [Header], writes := Suc (writes emptyWorld)\<rparr>)
   \<and> splitIntoBatches (Num 0) [alice, bob, carol] = None
   \<and> num_lt (fst ((splitRound (Num 0) [alice, bob, carol] ^^ 3) (Num 0, [])))
         (Num (int (length [alice, bob, carol])))
   \<and> length (snd ((splitRound (Num 0) [alice, bob, carol] ^^ 3) (Num 0, []))) = 3
   \<and> (1::int) \<le> 2
   \<and> (\<exists>bs. splitIntoBatches (Num 2) [alice, bob, carol] = Some bs
         \<and> concat bs = [alice, bob, carol])
   \<and> splitIntoBatches NaN [alice, bob, carol] = Some [[]]
   \<and> \<not> retry (parseArgs [''--batch-size=x'']) \<and> \<not> helpRequested [''--batch-size=x'']
   \<and> batchSize (parseArgs [''--batch-size=x'']) = NaN
   \<and> main envSettles validStartup [''--batch-size=x''] emptyWorld
       = (case batchLoop envSettles (maxRetries (parseArgs [''--batch-size=x'']))
                 (retryDelay (parseArgs [''--batch-size=x''])) 1 0 [[]] []
                 (emptyWorld\<lparr>hashesFile := [Header], writes := Suc (writes emptyWorld)\<rparr>) of
            (Inl e, w2) \<Rightarrow> (Exit 1, w2)
          | (Inr hashes, w2) \<Rightarrow> (Exit 0, w2))"
proof -
  have h1: "\<not> retry (parseArgs [''--batch-size=0''])" by code_simp
  have h1': "\<not> helpRequested [''--batch-size=0'']" by code_simp
  have h2: "validateConfig validStartup" by code_simp
  have h3: "startAddress validStartup = Inr ''zig1sender''"
    and h4: "startBalance validStartup = Inr ''1000''"
    and h5: "csvRecipients validStartup = Inr [alice, bob, carol]"
    and af: "arrayFull validStartup = None"
    by (simp_all add: validStartup_def)
  have h6: "[alice, bob, carol] \<noteq> []" by simp
  have h7: "disk envSettles (writes emptyWorld) = None" by (simp add: envSettles_def)
  have h8: "reduceAmounts (BigInt envSettles) 0 [alice, bob, carol] = Inr 23" by code_simp
  have h9: "batchSize (parseArgs [''--batch-size=0'']) = Num 0" by code_simp
  have h10: "(0::int) \<le> 0" by simp
  have g1: "\<not> retry (parseArgs [''--batch-size=x''])" by code_simp
  have g1': "\<not> helpRequested [''--batch-size=x'']" by code_simp
  have g9: "batchSize (parseArgs [''--batch-size=x'']) = NaN" by code_simp
  have two: "(1::int) \<le> 2" by simp
  note t = batch_size_is_not_validated[where n = 0 and R = "[alice, bob, carol]"
      and argv = "[''--batch-size=0'']" and st = validStartup and a = "''zig1sender''"
      and bal = "''1000''" and env = envSettles and w = emptyWorld and t = 23]
  have "main envSettles validStartup [''--batch-size=0''] emptyWorld
       = (case arrayFull validStartup of None \<Rightarrow> Abort | Some e \<Rightarrow> Exit 1,
          emptyWorld\<lparr>hashesFile := [Header], writes := Suc (writes emptyWorld)\<rparr>)"
    using t h1 h1' h2 h3 h4 h5 h6 h7 h8 h9 h10 by blast
  then have abort: "main envSettles validStartup [''--batch-size=0''] emptyWorld
       = (Abort, emptyWorld\<lparr>hashesFile := [Header], writes := Suc (writes emptyWorld)\<rparr>)"
    by (simp add: af)
  have grow: "splitIntoBatches (Num 0) [alice, bob, carol] = None
      \<and> (\<forall>k. num_lt (fst ((splitRound (Num 0) [alice, bob, carol] ^^ k) (Num 0, [])))
                 (Num (int (length [alice, bob, carol])))
             \<and> length (snd ((splitRound (Num 0) [alice, bob, carol] ^^ k) (Num 0, []))) = k)"
    using t h10 h6 by blast
  note none = grow[THEN conjunct1]
  note three = grow[THEN conjunct2, THEN spec, of 3]
  note u = batch_size_is_not_validated[where n = 2 and R = "[alice, bob, carol]"
      and argv = "[''--batch-size=x'']" and st = validStartup and a = "''zig1sender''"
      and bal = "''1000''" and env = envSettles and w = emptyWorld and t = 23]
  have part: "\<exists>bs. splitIntoBatches (Num 2) [alice, bob, carol] = Some bs
         \<and> concat bs = [alice, bob, carol]"
    using u two by blast
  have nan: "splitIntoBatches NaN [alice, bob, carol] = Some [[]]"
    using u h6 by blast
  have disp: "main envSettles validStartup [''--batch-size=x''] emptyWorld
       = (case batchLoop envSettles (maxRetries (parseArgs [''--batch-size=x'']))
                 (retryDelay (parseArgs [''--batch-size=x''])) 1 0 [[]] []
                 (emptyWorld\<lparr>hashesFile := [Header], writes := Suc (writes emptyWorld)\<rparr>) of
            (Inl e, w2) \<Rightarrow> (Exit 1, w2)
          | (Inr hashes, w2) \<Rightarrow> (Exit 0, w2))"
    using u g1 g1' h2 h3 h4 h5 h6 h7 h8 g9 by blast
  show ?thesis
    by (intro conjI h1 h1' h2 h3 h4 h5 h6 h7 h8 h9 h10 af abort none three[THEN conjunct1]
        three[THEN conjunct2] two part nan g1 g1' g9 disp)
qed

text \<open>
  The claim C9 itself fails: with \<open>--batch-size=x\<close> the batch size is \<open>NaN\<close>, and the run
  raises no configuration error: it dispatches one empty batch, which is broadcast, and the
  process ends with status 0.
\<close>

theorem invalid_batch_size_is_dispatched:
  "batchSize (parseArgs [''--batch-size=x'']) = NaN
   \<and> fst (main envSettles validStartup [''--batch-size=x''] emptyWorld) = Exit 0
   \<and> filter isExecute (trace (snd (main envSettles validStartup [''--batch-size=x''] emptyWorld)))
      = [Execute []]
   \<and> length (filter isBroadcast
        (trace (snd (main envSettles validStartup [''--batch-size=x''] emptyWorld)))) = 1"
  by code_simp

end
